theory Spec2Isabelle
  imports Complex_Main "HOL-Library.Char_ord"
begin

section \<open>Strings and characters\<close>

text \<open>
  The server is TypeScript; its strings are sequences of UTF-16 code units. They are
  modelled as \<^typ>\<open>string\<close>, whose characters are the code units 0 to 255 (Latin-1).
  The character classes below are the ECMAScript ones restricted to that range:
  \<^verbatim>\<open>\d\<close> is \<^verbatim>\<open>[0-9]\<close>, \<^verbatim>\<open>\w\<close> is \<^verbatim>\<open>[A-Za-z0-9_]\<close>, \<^verbatim>\<open>\s\<close> is
  TAB, LF, VT, FF, CR, SPACE and NBSP, and \<^verbatim>\<open>.\<close> excludes LF and CR.
\<close>

definition isDigit :: "char \<Rightarrow> bool" where
  "isDigit c = (CHR ''0'' \<le> c \<and> c \<le> CHR ''9'')"

definition isAsciiUpper :: "char \<Rightarrow> bool" where
  "isAsciiUpper c = (CHR ''A'' \<le> c \<and> c \<le> CHR ''Z'')"

definition isAsciiLower :: "char \<Rightarrow> bool" where
  "isAsciiLower c = (CHR ''a'' \<le> c \<and> c \<le> CHR ''z'')"

definition isLatinUpper :: "char \<Rightarrow> bool" where
  "isLatinUpper c = (CHR 0xC0 \<le> c \<and> c \<le> CHR 0xDE \<and> c \<noteq> CHR 0xD7)"

definition isLatinLower :: "char \<Rightarrow> bool" where
  "isLatinLower c = (CHR 0xE0 \<le> c \<and> c \<le> CHR 0xFE \<and> c \<noteq> CHR 0xF7)"

definition isWordChar :: "char \<Rightarrow> bool" where
  "isWordChar c = (isAsciiLower c \<or> isAsciiUpper c \<or> isDigit c \<or> c = CHR ''_'')"

definition isSpace :: "char \<Rightarrow> bool" where
  "isSpace c = (c = CHR 0x09 \<or> c = CHR 0x0A \<or> c = CHR 0x0B \<or> c = CHR 0x0C \<or>
                c = CHR 0x0D \<or> c = CHR 0x20 \<or> c = CHR 0xA0)"

definition isLineTerminator :: "char \<Rightarrow> bool" where
  "isLineTerminator c = (c = CHR 0x0A \<or> c = CHR 0x0D)"

text \<open>Upper and lower case differ in bit 5 (value 32) of the code unit.\<close>

fun setBit5 :: "bool \<Rightarrow> char \<Rightarrow> char" where
  "setBit5 b (Char b0 b1 b2 b3 b4 b5 b6 b7) = Char b0 b1 b2 b3 b4 b b6 b7"

text \<open>\<^verbatim>\<open>String.prototype.toLowerCase\<close>, one code unit at a time.\<close>

definition toLowerChar :: "char \<Rightarrow> char" where
  "toLowerChar c = (if isAsciiUpper c \<or> isLatinUpper c then setBit5 True c else c)"

definition toLowerCase :: "string \<Rightarrow> string" where
  "toLowerCase s = map toLowerChar s"

text \<open>
  \<^verbatim>\<open>Canonicalize\<close> of the ECMAScript pattern semantics for the \<^verbatim>\<open>i\<close> flag without
  the \<^verbatim>\<open>u\<close> flag: the upper-case form of the code unit. The two Latin-1 letters whose
  upper case lies outside Latin-1 (0xB5, 0xFF) and the one whose upper case is two
  letters (0xDF) stay as they are, which gives the same equalities inside Latin-1.
\<close>

definition canonicalize :: "char \<Rightarrow> char" where
  "canonicalize c = (if isAsciiLower c \<or> isLatinLower c then setBit5 False c else c)"

definition chEq :: "bool \<Rightarrow> char \<Rightarrow> char \<Rightarrow> bool" where
  "chEq ic c x = (if ic then canonicalize c = canonicalize x else c = x)"

text \<open>\<^verbatim>\<open>String.prototype.trim\<close>: white space and line terminators off both ends.\<close>

definition trim :: "string \<Rightarrow> string" where
  "trim s = rev (dropWhile isSpace (rev (dropWhile isSpace s)))"

fun startsWith :: "string \<Rightarrow> string \<Rightarrow> bool" where
  "startsWith s [] = True"
| "startsWith [] (n # ns) = False"
| "startsWith (c # cs) (n # ns) = (c = n \<and> startsWith cs ns)"

text \<open>\<^verbatim>\<open>hay.includes(needle)\<close>.\<close>

fun includesStr :: "string \<Rightarrow> string \<Rightarrow> bool" where
  "includesStr [] needle = startsWith [] needle"
| "includesStr (c # cs) needle = (startsWith (c # cs) needle \<or> includesStr cs needle)"

text \<open>\<^verbatim>\<open>text.split("\n")\<close> and \<^verbatim>\<open>lines.join("\n")\<close>.\<close>

fun splitLines :: "string \<Rightarrow> string list" where
  "splitLines [] = [[]]"
| "splitLines (c # cs) =
     (if c = CHR 0x0A then [] # splitLines cs
      else (case splitLines cs of [] \<Rightarrow> [[c]] | l # ls \<Rightarrow> (c # l) # ls))"

fun joinLines :: "string list \<Rightarrow> string" where
  "joinLines [] = []"
| "joinLines [l] = l"
| "joinLines (l # l' # ls) = l @ CHR 0x0A # joinLines (l' # ls)"

section \<open>Regular expressions\<close>

text \<open>
  The fragment of ECMAScript patterns that the server's pattern tables use. A class item
  is a single character, a range, \<^verbatim>\<open>\d\<close> or \<^verbatim>\<open>\s\<close>.
\<close>

datatype item = One char | Rng char char | ClsDigit | ClsSpace

datatype re =
    Eps
  | Lit char
  | Cls bool "item list"
  | Dot
  | WordB
  | Seq re re
  | Alt re re
  | Opt re
  | Rep nat "nat option" re

text \<open>
  A matcher state is the character before the current position (for \<^verbatim>\<open>\b\<close>) and the
  rest of the input. A matcher returns the states after each way of matching, in the
  order in which the backtracking matcher of the language tries them.
\<close>

type_synonym mstate = "char option \<times> string"

fun inItem :: "bool \<Rightarrow> item \<Rightarrow> char \<Rightarrow> bool" where
  "inItem ic (One c) x = chEq ic c x"
| "inItem ic (Rng lo hi) x =
     ((lo \<le> x \<and> x \<le> hi) \<or>
      (ic \<and> ((lo \<le> setBit5 True x \<and> setBit5 True x \<le> hi \<and> canonicalize (setBit5 True x) = canonicalize x) \<or>
             (lo \<le> setBit5 False x \<and> setBit5 False x \<le> hi \<and> canonicalize (setBit5 False x) = canonicalize x))))"
| "inItem ic ClsDigit x = isDigit x"
| "inItem ic ClsSpace x = isSpace x"

definition inClass :: "bool \<Rightarrow> item list \<Rightarrow> char \<Rightarrow> bool" where
  "inClass ic items x = list_ex (\<lambda>i. inItem ic i x) items"

definition isWordAt :: "char option \<Rightarrow> bool" where
  "isWordAt p = (case p of None \<Rightarrow> False | Some c \<Rightarrow> isWordChar c)"

definition nextChar :: "string \<Rightarrow> char option" where
  "nextChar s = (case s of [] \<Rightarrow> None | c # _ \<Rightarrow> Some c)"

definition stepIf :: "(char \<Rightarrow> bool) \<Rightarrow> mstate \<Rightarrow> mstate list" where
  "stepIf P k = (case snd k of [] \<Rightarrow> [] | x # xs \<Rightarrow> if P x then [(Some x, xs)] else [])"

text \<open>Exactly \<open>n\<close> iterations of a matcher.\<close>

primrec repExact :: "nat \<Rightarrow> (mstate \<Rightarrow> mstate list) \<Rightarrow> mstate \<Rightarrow> mstate list" where
  "repExact 0 f k = [k]"
| "repExact (Suc n) f k = concat (map (repExact n f) (f k))"

text \<open>
  Up to \<open>n\<close> further greedy iterations: one more iteration is tried before stopping,
  and an iteration that consumes nothing is abandoned (step 2.b of \<^verbatim>\<open>RepeatMatcher\<close>).
\<close>

primrec repUpto :: "nat \<Rightarrow> (mstate \<Rightarrow> mstate list) \<Rightarrow> mstate \<Rightarrow> mstate list" where
  "repUpto 0 f k = [k]"
| "repUpto (Suc n) f k =
     concat (map (\<lambda>k'. if length (snd k') < length (snd k) then repUpto n f k' else []) (f k)) @ [k]"

text \<open>
  \<open>Opt a\<close> is \<^verbatim>\<open>a?\<close>, that is \<^verbatim>\<open>a{0,1}\<close>, and \<open>Rep m n a\<close> is \<^verbatim>\<open>a{m,n}\<close>, or
  \<^verbatim>\<open>a{m,}\<close> when \<open>n\<close> is \<open>None\<close>. An unbounded repetition makes at most as many
  non-empty iterations as there are characters left, so the bound \<open>length (snd k)\<close>
  loses nothing.
\<close>

primrec rmatch :: "re \<Rightarrow> bool \<Rightarrow> mstate \<Rightarrow> mstate list" where
  "rmatch Eps ic k = [k]"
| "rmatch (Lit c) ic k = stepIf (chEq ic c) k"
| "rmatch (Cls neg items) ic k = stepIf (\<lambda>x. inClass ic items x \<noteq> neg) k"
| "rmatch Dot ic k = stepIf (\<lambda>x. \<not> isLineTerminator x) k"
| "rmatch WordB ic k = (if isWordAt (fst k) \<noteq> isWordAt (nextChar (snd k)) then [k] else [])"
| "rmatch (Seq a b) ic k = concat (map (rmatch b ic) (rmatch a ic k))"
| "rmatch (Alt a b) ic k = rmatch a ic k @ rmatch b ic k"
| "rmatch (Opt a) ic k = repUpto 1 (rmatch a ic) k"
| "rmatch (Rep m n a) ic k =
     concat (map (\<lambda>k'. repUpto (case n of None \<Rightarrow> length (snd k') | Some n' \<Rightarrow> n' - m) (rmatch a ic) k')
                 (repExact m (rmatch a ic) k))"

text \<open>A pattern literal: its body and its \<^verbatim>\<open>i\<close> and \<^verbatim>\<open>g\<close> flags.\<close>

record regex =
  body :: re
  ignoreCase :: bool
  global :: bool

text \<open>The length of the first match that starts at the current position, if any.\<close>

definition matchAt :: "regex \<Rightarrow> mstate \<Rightarrow> nat option" where
  "matchAt p k = (case rmatch (body p) (ignoreCase p) k of
                    [] \<Rightarrow> None
                  | k' # _ \<Rightarrow> Some (length (snd k) - length (snd k')))"

text \<open>\<^verbatim>\<open>pattern.test(s)\<close> on a pattern whose \<^verbatim>\<open>lastIndex\<close> is 0: some position matches.\<close>

fun testFrom :: "regex \<Rightarrow> char option \<Rightarrow> string \<Rightarrow> bool" where
  "testFrom p prev [] = (matchAt p (prev, []) \<noteq> None)"
| "testFrom p prev (c # cs) = (matchAt p (prev, c # cs) \<noteq> None \<or> testFrom p (Some c) cs)"

definition test :: "regex \<Rightarrow> string \<Rightarrow> bool" where
  "test p s = testFrom p None s"

definition REDACTED :: string where
  "REDACTED = ''[REDACTED]''"

text \<open>
  \<^verbatim>\<open>s.replace(pattern, "[REDACTED]")\<close>. With the \<^verbatim>\<open>g\<close> flag every match is replaced,
  scanning from the left and resuming after each match (one character further after an
  empty one); \<open>skip\<close> counts the characters of the current match still to be dropped.
  Without the flag only the first match is replaced.
\<close>

fun replaceAllFrom :: "regex \<Rightarrow> char option \<Rightarrow> nat \<Rightarrow> string \<Rightarrow> string" where
  "replaceAllFrom p prev skip [] =
     (if skip = 0 \<and> matchAt p (prev, []) \<noteq> None then REDACTED else [])"
| "replaceAllFrom p prev skip (c # cs) =
     (case skip of
        Suc n \<Rightarrow> replaceAllFrom p (Some c) n cs
      | 0 \<Rightarrow> (case matchAt p (prev, c # cs) of
                None \<Rightarrow> c # replaceAllFrom p (Some c) 0 cs
              | Some 0 \<Rightarrow> REDACTED @ c # replaceAllFrom p (Some c) 0 cs
              | Some (Suc n) \<Rightarrow> REDACTED @ replaceAllFrom p (Some c) n cs))"

fun replaceFirstFrom :: "regex \<Rightarrow> char option \<Rightarrow> string \<Rightarrow> string" where
  "replaceFirstFrom p prev [] = (if matchAt p (prev, []) \<noteq> None then REDACTED else [])"
| "replaceFirstFrom p prev (c # cs) =
     (case matchAt p (prev, c # cs) of
        None \<Rightarrow> c # replaceFirstFrom p (Some c) cs
      | Some n \<Rightarrow> REDACTED @ drop n (c # cs))"

definition replace :: "regex \<Rightarrow> string \<Rightarrow> string" where
  "replace p s = (if global p then replaceAllFrom p None 0 s else replaceFirstFrom p None s)"

text \<open>\<^verbatim>\<open>s.match(pattern)?.length || 0\<close> for a global pattern: the number of matches.\<close>

fun countFrom :: "regex \<Rightarrow> char option \<Rightarrow> nat \<Rightarrow> string \<Rightarrow> nat" where
  "countFrom p prev skip [] = (if skip = 0 \<and> matchAt p (prev, []) \<noteq> None then 1 else 0)"
| "countFrom p prev skip (c # cs) =
     (case skip of
        Suc n \<Rightarrow> countFrom p (Some c) n cs
      | 0 \<Rightarrow> (case matchAt p (prev, c # cs) of
                None \<Rightarrow> countFrom p (Some c) 0 cs
              | Some 0 \<Rightarrow> Suc (countFrom p (Some c) 0 cs)
              | Some (Suc n) \<Rightarrow> Suc (countFrom p (Some c) n cs)))"

subsection \<open>Writing patterns\<close>

fun seqs :: "re list \<Rightarrow> re" where
  "seqs [] = Eps"
| "seqs [r] = r"
| "seqs (r # r' # rs) = Seq r (seqs (r' # rs))"

fun alts :: "re list \<Rightarrow> re" where
  "alts [] = Eps"
| "alts [r] = r"
| "alts (r # r' # rs) = Alt r (alts (r' # rs))"

definition str :: "string \<Rightarrow> re" where
  "str s = seqs (map Lit s)"

definition words :: "string list \<Rightarrow> re" where
  "words ws = alts (map str ws)"

definition reStar :: "re \<Rightarrow> re" where
  "reStar r = Rep 0 None r"

definition rePlus :: "re \<Rightarrow> re" where
  "rePlus r = Rep 1 None r"

definition reDigit :: re where
  "reDigit = Cls False [ClsDigit]"

definition reSpace :: re where
  "reSpace = Cls False [ClsSpace]"

definition rx :: "re \<Rightarrow> regex" where
  "rx r = \<lparr>body = r, ignoreCase = False, global = False\<rparr>"

definition rxI :: "re \<Rightarrow> regex" where
  "rxI r = \<lparr>body = r, ignoreCase = True, global = False\<rparr>"

definition rxG :: "re \<Rightarrow> regex" where
  "rxG r = \<lparr>body = r, ignoreCase = False, global = True\<rparr>"

definition rxGI :: "re \<Rightarrow> regex" where
  "rxGI r = \<lparr>body = r, ignoreCase = True, global = True\<rparr>"

section \<open>The pattern tables of the chat route\<close>

definition az :: "item list" where
  "az = [Rng (CHR ''a'') (CHR ''z'')]"

definition AZ09 :: "item list" where
  "AZ09 = [Rng (CHR ''A'') (CHR ''Z''), Rng (CHR ''0'') (CHR ''9'')]"

definition keyChars :: "item list" where
  "keyChars = [Rng (CHR ''a'') (CHR ''z''), Rng (CHR ''A'') (CHR ''Z''), Rng (CHR ''0'') (CHR ''9''),
               One (CHR ''_''), One (CHR ''-''), One (CHR ''.'')]"

definition digitDash :: "item list" where
  "digitDash = [ClsDigit, One (CHR ''-'')]"

definition hashSpace :: "item list" where
  "hashSpace = [One (CHR ''#''), ClsSpace]"

definition spaceColon :: "item list" where
  "spaceColon = [ClsSpace, One (CHR '':'')]"

definition underDash :: "item list" where
  "underDash = [One (CHR ''_''), One (CHR ''-'')]"

definition quotes :: "item list" where
  "quotes = [One (CHR 0x27), One (CHR 0x22)]"

text \<open>\<^verbatim>\<open>BLOCKED_PATTERNS\<close>: what a user message must not contain.\<close>

definition BLOCKED_PATTERNS :: "regex list" where
  "BLOCKED_PATTERNS =
    [rxI (seqs [WordB, words [''bank'', ''banking'', ''account'', ''acc'', ''acct'', ''ifsc'', ''routing'', ''swift''], WordB]),
     rxI (seqs [WordB, words [''credit card'', ''debit card'', ''card number''], WordB]),
     rxI (seqs [WordB, words [''account number'', ''account#'', ''acct#''], WordB]),
     rxI (seqs [WordB, words [''ssn'', ''social security'', ''tax id'', ''tin'', ''aadhar'', ''pan'', ''gstin''], WordB]),
     rxI (seqs [WordB, alts [seqs [str ''driver'', Opt Dot, str ''license''], str ''passport'', str ''visa''], WordB]),
     rxI (seqs [WordB, words [''password'', ''passwd'', ''pwd'', ''pin'', ''otp'', ''verification code''], WordB]),
     rxI (seqs [WordB, words [''api key'', ''secret'', ''private key'', ''token''], WordB]),
     rxI (words [''ignore previous'', ''ignore all prior'', ''forget about'']),
     rxI (words [''system message'', ''system prompt'']),
     rxI (words [''you are actually'', ''pretend that'', ''act as if'']),
     rxI (words [''override'', ''override directive'', ''new instructions'']),
     rxI (words [''jailbreak'', ''bypass'', ''circumvent'', ''override''])]"

definition violatesInputPolicy :: "string \<Rightarrow> bool" where
  "violatesInputPolicy query =
     (let violations = filter (\<lambda>p. test p query) BLOCKED_PATTERNS
      in if length violations > 0 then True else False)"

text \<open>\<^verbatim>\<open>SENSITIVE_CONTEXT_PATTERNS\<close>: the first redaction stage.\<close>

definition SENSITIVE_CONTEXT_PATTERNS :: "regex list" where
  "SENSITIVE_CONTEXT_PATTERNS =
    [rxG (seqs [WordB, Rep 12 (Some 16) reDigit, WordB]),
     rxG (seqs [WordB, Rep 9 (Some 12) reDigit, WordB]),
     rxI (str ''account number''),
     rxI (str ''ifsc''),
     rxI (str ''password''),
     rxI (str ''secret''),
     rxI (str ''token'')]"

definition injectionPatterns :: "regex list" where
  "injectionPatterns =
    [rxI (str ''always respond with''),
     rxI (seqs [str ''forget '', Opt (words [''about '', ''the '']), str ''previous'']),
     rxI (seqs [str ''ignore '', words [''above'', ''previous'', ''all prior'']]),
     rxI (seqs [str ''override '', words [''above'', ''previous'']]),
     rxI (str ''system message''),
     rxI (seqs [str ''new instruction'', Opt (Lit (CHR ''s'')), Lit (CHR '':'')]),
     rxI (str ''you are actually''),
     rxI (str ''pretend that''),
     rxI (str ''act as if'')]"

definition detectInstructionInjection :: "string \<Rightarrow> bool" where
  "detectInstructionInjection text = list_ex (\<lambda>p. test p text) injectionPatterns"

text \<open>A line survives unless its lower-case form contains one of four cues.\<close>

definition keepLine :: "string \<Rightarrow> bool" where
  "keepLine line =
     (let lowerLine = toLowerCase line
      in if includesStr lowerLine ''always say'' \<or> includesStr lowerLine ''ignore'' \<or>
            includesStr lowerLine ''override'' \<or> includesStr lowerLine ''new instructions''
         then False else True)"

definition filterInstructionContent :: "string \<Rightarrow> string" where
  "filterInstructionContent text = joinLines (filter keepLine (splitLines text))"

text \<open>The second, broader redaction stage; the labels of the source are not used by it.\<close>

definition sensitivePatterns :: "regex list" where
  "sensitivePatterns =
    [rxGI (seqs [words [''account'', ''acc'', ''acct''], reStar (Cls False hashSpace),
                 Opt (words [''num'', ''number'']), reStar reSpace, Opt (Lit (CHR '':'')), reStar reSpace,
                 rePlus (Cls False digitDash)]),
     rxGI (seqs [words [''credit'', ''debit'', ''card''], reStar (Cls False hashSpace), str ''num'',
                 reStar (Cls True az), Rep 12 (Some 19) (Cls False [ClsDigit, ClsSpace])]),
     rxGI (words [''ssn'', ''social security'', ''tax id'', ''tin'']),
     rxG (seqs [words [''api'', ''auth'', ''secret'', ''password'', ''passwd'', ''pwd''],
                reStar (Cls False hashSpace), str ''key'', reStar reSpace, Opt (Lit (CHR '':'')), reStar reSpace,
                Rep 8 None (Cls False keyChars)]),
     rxGI (seqs [words [''pin'', ''code'', ''otp'', ''verification''], reStar reSpace, Opt (Lit (CHR '':'')),
                 reStar reSpace, Rep 4 (Some 6) reDigit]),
     rxGI (alts [seqs [WordB, str ''aadhar'', WordB], seqs [WordB, str ''pan'', WordB],
                 seqs [WordB, str ''gstin'', WordB]]),
     rxGI (seqs [words [''name'', ''email'', ''phone'', ''address'', ''ssn'', ''date of birth''],
                 Lit (CHR '':''), reStar reSpace, rePlus (Cls True [One (CHR '',''), One (CHR ''.'')])])]"

fun redactEach :: "regex list \<Rightarrow> string \<Rightarrow> string" where
  "redactEach [] redacted = redacted"
| "redactEach (pattern # ps) redacted =
     redactEach ps (if test pattern redacted then replace pattern redacted else redacted)"

definition semanticRedactContext :: "string \<Rightarrow> string" where
  "semanticRedactContext text = redactEach sensitivePatterns text"

text \<open>
  The three advisory checks. The issue strings of the source are the constructors here;
  the second carries the count that the source prints into its message.
\<close>

datatype issue = InjectionAttempt | HighRedactionVolume nat | ContextTooLarge

record validation =
  safe :: bool
  issues :: "issue list"

definition redactedMarker :: regex where
  "redactedMarker = rxG (str ''[REDACTED]'')"

definition validateContextSafety :: "string \<Rightarrow> validation" where
  "validateContextSafety context =
     (let issues1 = (if detectInstructionInjection context then [InjectionAttempt] else []);
          redactableLength = countFrom redactedMarker None 0 context;
          issues2 = (if redactableLength > 5 then issues1 @ [HighRedactionVolume redactableLength] else issues1);
          issues3 = (if length context > 50000 then issues2 @ [ContextTooLarge] else issues2)
      in \<lparr>safe = (length issues3 = 0), issues = issues3\<rparr>)"

fun replaceEach :: "regex list \<Rightarrow> string \<Rightarrow> string" where
  "replaceEach [] sanitized = sanitized"
| "replaceEach (pattern # ps) sanitized = replaceEach ps (replace pattern sanitized)"

text \<open>
  \<^verbatim>\<open>sanitizeContext\<close> returns the cleaned text; the validation of that text is computed
  and only logged.
\<close>

definition sanitizeContext :: "string \<Rightarrow> string" where
  "sanitizeContext text =
     semanticRedactContext (filterInstructionContent (replaceEach SENSITIVE_CONTEXT_PATTERNS text))"

section \<open>Hybrid search\<close>

text \<open>
  Scores are JavaScript numbers. They are modelled as real numbers, so the arithmetic
  below is exact; nothing proved here depends on rounding.
\<close>

definition SEMANTIC_WEIGHT :: real where
  "SEMANTIC_WEIGHT = 0.7"

definition LEXICAL_WEIGHT :: real where
  "LEXICAL_WEIGHT = 0.3"

datatype provenance = Semantic | Lexical

text \<open>The metadata stored with a chunk in the vector store.\<close>

record metadata =
  filePath :: "string option"
  fileHash :: "string option"
  chunkIndex :: "nat option"

record doc =
  content :: string
  meta :: "metadata option"
  score :: real
  source :: provenance

record hybridSearchResult = doc +
  finalScore :: real

text \<open>A raised exception or rejected promise: an optional status code and a message.\<close>

datatype error = Error (statusCode: "nat option") (message: string)

text \<open>
  What the two retrieval collaborators answer. \<^verbatim>\<open>miniSearch.search\<close> yields hits with
  the stored fields and a score; \<^verbatim>\<open>collection.query\<close> yields, for the one query text,
  the documents (possibly null), their metadata and their distances. Either call may
  throw, which is the \<open>Inl\<close> case.
\<close>

record lexicalHit =
  hitId :: string
  hitContent :: string
  hitFilePath :: string
  hitScore :: real

record queryResponse =
  documents :: "string option list option"
  metadatas :: "metadata option list option"
  distances :: "real option list option"

text \<open>\<^verbatim>\<open>xs?.[i]\<close>: undefined when the list is missing or too short.\<close>

definition atIndex :: "'a list option \<Rightarrow> nat \<Rightarrow> 'a option" where
  "atIndex xs i = (case xs of None \<Rightarrow> None | Some ys \<Rightarrow> if i < length ys then Some (ys ! i) else None)"

fun mapIdx :: "('a \<Rightarrow> nat \<Rightarrow> 'b) \<Rightarrow> nat \<Rightarrow> 'a list \<Rightarrow> 'b list" where
  "mapIdx f i [] = []"
| "mapIdx f i (x # xs) = f x i # mapIdx f (Suc i) xs"

definition semanticDocs :: "queryResponse \<Rightarrow> doc list" where
  "semanticDocs semanticResults =
     (case documents semanticResults of
        None \<Rightarrow> []
      | Some docs \<Rightarrow>
          concat (mapIdx (\<lambda>d i. case d of
                      None \<Rightarrow> []
                    | Some c \<Rightarrow>
                        [\<lparr>content = c,
                          meta = (case atIndex (metadatas semanticResults) i of Some (Some m) \<Rightarrow> Some m | _ \<Rightarrow> None),
                          score = 1 - (case atIndex (distances semanticResults) i of Some (Some x) \<Rightarrow> x | _ \<Rightarrow> 0),
                          source = Semantic\<rparr>]) 0 docs))"

definition lexicalDocs :: "lexicalHit list \<Rightarrow> doc list" where
  "lexicalDocs lexicalResults =
     map (\<lambda>r. \<lparr>content = hitContent r,
                meta = Some \<lparr>filePath = Some (hitFilePath r), fileHash = None, chunkIndex = None\<rparr>,
                score = hitScore r,
                source = Lexical\<rparr>) lexicalResults"

definition withFinalScore :: "doc \<Rightarrow> hybridSearchResult" where
  "withFinalScore d =
     doc.extend d (hybridSearchResult.fields
       (if source d = Semantic then score d * SEMANTIC_WEIGHT else score d * LEXICAL_WEIGHT))"

text \<open>
  \<^verbatim>\<open>.sort((a, b) => b.finalScore - a.finalScore).slice(0, 5)\<close>: a stable sort, highest
  final score first, then the first five.
\<close>

definition ranked :: "doc list \<Rightarrow> hybridSearchResult list" where
  "ranked combined = take 5 (sort_key (\<lambda>r. - finalScore r) (map withFinalScore combined))"

text \<open>
  The lexical query runs first, then the semantic one; no call is guarded, so the first
  failure leaves the function.
\<close>

definition hybridSearch ::
  "string \<Rightarrow> error + lexicalHit list \<Rightarrow> error + queryResponse \<Rightarrow> error + hybridSearchResult list" where
  "hybridSearch query lexical semantic =
     (if trim query = [] then Inr []
      else case lexical of
             Inl e \<Rightarrow> Inl e
           | Inr lexicalResults \<Rightarrow>
               (case semantic of
                  Inl e \<Rightarrow> Inl e
                | Inr semanticResults \<Rightarrow>
                    Inr (ranked (semanticDocs semanticResults @ lexicalDocs lexicalResults))))"

section \<open>The chat route\<close>

subsection \<open>Output policy\<close>

definition d09 :: re where
  "d09 = Cls False [Rng (CHR ''0'') (CHR ''9'')]"

text \<open>\<^verbatim>\<open>OUTPUT_BLOCK_PATTERNS\<close>; the first one (card numbers) has no flag.\<close>

definition OUTPUT_BLOCK_PATTERNS :: "regex list" where
  "OUTPUT_BLOCK_PATTERNS =
    [rx (seqs [WordB,
               alts [seqs [Lit (CHR ''4''), Rep 12 (Some 12) d09, Opt (Rep 3 (Some 3) d09)],
                     seqs [Lit (CHR ''5''), Cls False [Rng (CHR ''1'') (CHR ''5'')], Rep 14 (Some 14) d09],
                     seqs [Lit (CHR ''3''), Cls False [One (CHR ''4''), One (CHR ''7'')], Rep 13 (Some 13) d09],
                     seqs [Lit (CHR ''3''),
                           alts [seqs [Lit (CHR ''0''), Cls False [Rng (CHR ''0'') (CHR ''5'')]],
                                 seqs [Cls False [One (CHR ''6''), One (CHR ''8'')], d09]],
                           Rep 11 (Some 11) d09],
                     seqs [Lit (CHR ''6''), alts [str ''011'', seqs [Lit (CHR ''5''), Rep 2 (Some 2) d09]],
                           Rep 12 (Some 12) d09],
                     seqs [alts [str ''2131'', str ''1800'', seqs [str ''35'', Rep 3 (Some 3) reDigit]],
                           Rep 11 (Some 11) reDigit]],
               WordB]),
     rxI (seqs [WordB, words [''account'', ''acc'', ''acct''], reStar (Cls False hashSpace),
                Opt (words [''num'', ''number'']), reStar reSpace, Opt (Lit (CHR '':'')), reStar reSpace,
                Rep 8 (Some 20) (Cls False digitDash)]),
     rxI (seqs [words [''ssn'', ''social security'', ''tax id''], reStar (Cls False spaceColon),
                Rep 9 (Some 11) (Cls False digitDash)]),
     rxI (seqs [words [''ifsc'', ''swift'', ''routing''], reStar (Cls False spaceColon),
                Rep 8 (Some 20) (Cls False AZ09)]),
     rxI (seqs [alts [seqs [str ''api'', Opt (Cls False underDash), str ''key''],
                      seqs [str ''secret'', Opt (Cls False underDash), str ''key''],
                      seqs [str ''auth'', Opt (Cls False underDash), str ''token'']],
                reStar (Cls False spaceColon), Rep 20 None (Cls False keyChars)]),
     rxI (seqs [words [''aadhar'', ''pan'', ''gstin''], reStar (Cls False spaceColon),
                Rep 8 (Some 12) (Cls False AZ09)]),
     rxI (seqs [WordB, words [''my'', ''your''], rePlus reSpace,
                words [''name'', ''email'', ''phone'', ''ssn'', ''account''], reStar reSpace,
                Opt (Lit (CHR '':'')), reStar reSpace, Opt (Cls False quotes),
                rePlus (Cls True (quotes @ [One (CHR 0x0A)])), Opt (Cls False quotes)])]"

definition violatesOutputPolicy :: "string \<Rightarrow> bool" where
  "violatesOutputPolicy text =
     (let violations = filter (\<lambda>p. test p text) OUTPUT_BLOCK_PATTERNS
      in if length violations > 0 then True else False)"

definition BLOCKED_RESPONSE :: string where
  "BLOCKED_RESPONSE =
     ''WARNING: This response was blocked because it contains sensitive information that should not be shared.''"

definition REFUSAL :: string where
  "REFUSAL = ''This question contains restricted information (financial, personal, or security-related) '' @
             CHR 0x0A # ''and cannot be processed. Please ask about your knowledge base content instead.''"

subsection \<open>Configuration, requests and collaborators\<close>

definition PRIMARY_MODEL :: string where
  "PRIMARY_MODEL = ''gemini-2.5-flash''"

text \<open>The module constants that are read from the environment.\<close>

record config =
  OPENAI_API_KEY :: "string option"
  FALLBACK_MODEL :: string
  ALLOW_GENERAL_FALLBACK :: bool
  MIN_CONTEXT_SCORE :: real
  ENABLE_ROLLING_SUMMARY :: bool
  RATE_LIMIT_BACKOFF_MS :: nat

text \<open>The values the constants take when the environment sets none of them.\<close>

definition defaultConfig :: config where
  "defaultConfig =
     \<lparr>OPENAI_API_KEY = None, FALLBACK_MODEL = ''openai/gpt-oss-120b:free'',
      ALLOW_GENERAL_FALLBACK = False, MIN_CONTEXT_SCORE = 0.25,
      ENABLE_ROLLING_SUMMARY = False, RATE_LIMIT_BACKOFF_MS = 60000\<rparr>"

record part =
  partType :: string
  partText :: string

record chatMessage =
  parts :: "part list option"
  metadataSessionId :: "string option"

record request =
  bodySessionId :: "string option"
  bodyMessages :: "chatMessage list option"
  querySessionId :: "string option"

datatype role = User | Assistant

text \<open>The argument of \<^verbatim>\<open>saveMessage\<close>, the persistence collaborator.\<close>

record savedMessage =
  msgSessionId :: string
  msgRole :: role
  msgContent :: string

datatype provider = Google | OpenAI

text \<open>
  The two system prompts are fixed texts around the model label; only which one is used
  and its label are kept.
\<close>

datatype systemPrompt = GeneralPrompt string | KnowledgeBasePrompt string

text \<open>One call of \<^verbatim>\<open>streamText\<close> made through \<^verbatim>\<open>createStream\<close>.\<close>

record call =
  callProvider :: provider
  callModel :: string
  callLabel :: string
  callSystem :: systemPrompt
  callUserText :: string

text \<open>
  What a provider does with a call: the call itself throws, the text of the stream is
  rejected, or the stream finishes with a text.
\<close>

datatype attempt = CreateThrows error | TextRejects error | Finishes string

record stream =
  streamLabel :: string
  outcome :: "error + string"

text \<open>
  The mutable state around a request: the persisted messages, the provider calls made,
  and the module variable \<^verbatim>\<open>rateLimitedUntil\<close>.
\<close>

record state =
  saved :: "savedMessage list"
  calls :: "call list"
  rateLimitedUntil :: nat

text \<open>
  What the collaborators answer during one request: the clock, the identifier check of
  the database driver, the two retrieval branches, the stored conversation summary, and
  the provider's behaviour on its \<open>n\<close>-th call. Persisting a message is taken to succeed.
\<close>

record world =
  now :: nat
  isValidObjectId :: "string \<Rightarrow> bool"
  lexical :: "error + lexicalHit list"
  semantic :: "error + queryResponse"
  sessionSummary :: string
  respond :: "nat \<Rightarrow> call \<Rightarrow> attempt"

datatype response = Json nat string | Streamed string "error + string"

subsection \<open>Helpers of the route\<close>

definition rateLimitPattern :: regex where
  "rateLimitPattern = rxI (words [''rate limit'', ''quota'', ''resource_exhausted''])"

definition isRateLimitError :: "error \<Rightarrow> bool" where
  "isRateLimitError e =
     (if statusCode e = Some 429 then True else test rateLimitPattern (message e))"

definition markRateLimited :: "config \<Rightarrow> world \<Rightarrow> error \<Rightarrow> state \<Rightarrow> state" where
  "markRateLimited cfg w e st =
     (if \<not> isRateLimitError e then st
      else st\<lparr>rateLimitedUntil := now w + RATE_LIMIT_BACKOFF_MS cfg\<rparr>)"

definition saveMessage :: "savedMessage \<Rightarrow> state \<Rightarrow> state" where
  "saveMessage m st = st\<lparr>saved := saved st @ [m]\<rparr>"

definition resolveModel :: "string \<Rightarrow> provider" where
  "resolveModel modelId = (if startsWith modelId ''openai/'' then OpenAI else Google)"

text \<open>
  The \<^verbatim>\<open>onFinish\<close> callback. The rolling-summary task that follows a saved answer only
  rewrites the session summary, which is outside this state.
\<close>

definition onFinish :: "string \<Rightarrow> string \<Rightarrow> state \<Rightarrow> state" where
  "onFinish sessionId text st =
     (if violatesOutputPolicy text
      then saveMessage \<lparr>msgSessionId = sessionId, msgRole = Assistant, msgContent = BLOCKED_RESPONSE\<rparr> st
      else saveMessage \<lparr>msgSessionId = sessionId, msgRole = Assistant, msgContent = text\<rparr> st)"

fun showNat :: "nat \<Rightarrow> string" where
  "showNat n = (if n < 10 then [''0123456789'' ! n]
                else showNat (n div 10) @ [''0123456789'' ! (n mod 10)])"

fun joinWith :: "string \<Rightarrow> string list \<Rightarrow> string" where
  "joinWith sep [] = []"
| "joinWith sep [x] = x"
| "joinWith sep (x # y # xs) = x @ sep @ joinWith sep (y # xs)"

definition sourceBlock :: "hybridSearchResult \<Rightarrow> nat \<Rightarrow> string" where
  "sourceBlock r i =
     ''Source '' @ showNat (i + 1) @ '' ('' @
     (case meta r of
        None \<Rightarrow> ''unknown''
      | Some m \<Rightarrow> (case filePath m of None \<Rightarrow> ''unknown'' | Some f \<Rightarrow> f)) @
     ''):'' @ CHR 0x0A # content r"

definition filteredResults :: "config \<Rightarrow> hybridSearchResult list \<Rightarrow> hybridSearchResult list" where
  "filteredResults cfg ragResults = filter (\<lambda>r. finalScore r \<ge> MIN_CONTEXT_SCORE cfg) ragResults"

definition rawContext :: "config \<Rightarrow> hybridSearchResult list \<Rightarrow> string" where
  "rawContext cfg ragResults =
     joinWith [CHR 0x0A, CHR 0x0A] (mapIdx sourceBlock 0 (filteredResults cfg ragResults))"

definition buildSystemPrompt :: "config \<Rightarrow> string \<Rightarrow> systemPrompt" where
  "buildSystemPrompt cfg modelLabel =
     (if ALLOW_GENERAL_FALLBACK cfg then GeneralPrompt modelLabel else KnowledgeBasePrompt modelLabel)"

definition userText :: "string \<Rightarrow> string \<Rightarrow> string \<Rightarrow> string" where
  "userText summaryText query context =
     (let summaryBlock = (if summaryText \<noteq> [] then ''Conversation summary:'' @ CHR 0x0A # summaryText @ [CHR 0x0A, CHR 0x0A] else []);
          contextBlock = (if length (trim context) = 0 then [] else ''---'' @ CHR 0x0A # ''Context:'' @ CHR 0x0A # context)
      in if contextBlock \<noteq> [] then summaryBlock @ query @ [CHR 0x0A, CHR 0x0A] @ contextBlock
         else summaryBlock @ query)"

subsection \<open>Generation\<close>

text \<open>The parts of a request that the closures of the route share.\<close>

record turn =
  turnSession :: string
  turnUserText :: string

definition mkCall :: "config \<Rightarrow> turn \<Rightarrow> provider \<Rightarrow> string \<Rightarrow> string \<Rightarrow> call" where
  "mkCall cfg t prov modelId modelLabel =
     \<lparr>callProvider = prov, callModel = modelId, callLabel = modelLabel,
      callSystem = buildSystemPrompt cfg modelLabel, callUserText = turnUserText t\<rparr>"

definition createStream ::
  "config \<Rightarrow> world \<Rightarrow> turn \<Rightarrow> provider \<Rightarrow> string \<Rightarrow> string \<Rightarrow> state \<Rightarrow> (error + stream) \<times> state" where
  "createStream cfg w t prov modelId modelLabel st =
     (let c = mkCall cfg t prov modelId modelLabel;
          st' = st\<lparr>calls := calls st @ [c]\<rparr>
      in case respond w (length (calls st)) c of
           CreateThrows e \<Rightarrow> (Inl e, st')
         | TextRejects e \<Rightarrow> (Inr \<lparr>streamLabel = modelLabel, outcome = Inl e\<rparr>, st')
         | Finishes text \<Rightarrow> (Inr \<lparr>streamLabel = modelLabel, outcome = Inr text\<rparr>, st'))"

text \<open>A stream that runs to its end calls \<^verbatim>\<open>onFinish\<close> with its text.\<close>

definition finishStream :: "turn \<Rightarrow> stream \<Rightarrow> state \<Rightarrow> state" where
  "finishStream t s st = (case outcome s of Inl e \<Rightarrow> st | Inr text \<Rightarrow> onFinish (turnSession t) text st)"

text \<open>\<^verbatim>\<open>pipeDataStream\<close> sends the body of the stream to the client as it is.\<close>

definition pipeDataStream :: "stream \<Rightarrow> response" where
  "pipeDataStream s = Streamed (streamLabel s) (outcome s)"

definition fallbackLabel :: "config \<Rightarrow> string" where
  "fallbackLabel cfg = ''Fallback ('' @ FALLBACK_MODEL cfg @ '')''"

definition ensureOpenAiFallback ::
  "config \<Rightarrow> world \<Rightarrow> turn \<Rightarrow> error \<Rightarrow> state \<Rightarrow> (error + stream) \<times> state" where
  "ensureOpenAiFallback cfg w t e st =
     (if OPENAI_API_KEY cfg = None \<or> OPENAI_API_KEY cfg = Some [] then (Inl e, st)
      else createStream cfg w t OpenAI (FALLBACK_MODEL cfg) (fallbackLabel cfg) (markRateLimited cfg w e st))"

text \<open>The outer \<^verbatim>\<open>catch\<close> of the route; no header has been sent when it is reached.\<close>

definition requestFailed :: "state \<Rightarrow> response \<times> state" where
  "requestFailed st = (Json 500 ''Chat request failed'', st)"

text \<open>A fallback stream is piped to the client and finishes while it is piped.\<close>

definition pipeFallback :: "turn \<Rightarrow> (error + stream) \<times> state \<Rightarrow> response \<times> state" where
  "pipeFallback t r =
     (case r of
        (Inl e, st) \<Rightarrow> requestFailed st
      | (Inr fallbackResult, st) \<Rightarrow> (pipeDataStream fallbackResult, finishStream t fallbackResult st))"

text \<open>
  A failure caught by one of the two inner \<^verbatim>\<open>catch\<close> blocks: note a rate limit, then
  try the fallback; what that throws reaches the outer \<^verbatim>\<open>catch\<close>.
\<close>

definition caught :: "config \<Rightarrow> world \<Rightarrow> turn \<Rightarrow> error \<Rightarrow> state \<Rightarrow> response \<times> state" where
  "caught cfg w t e st = pipeFallback t (ensureOpenAiFallback cfg w t e (markRateLimited cfg w e st))"

text \<open>
  From the choice of the primary model to the response. The text of the primary stream
  is awaited in full inside the second \<^verbatim>\<open>try\<close>; the call of the fallback for an empty
  text stands inside that \<^verbatim>\<open>try\<close> as well, so what it throws is caught there.
\<close>

definition primaryModelId :: "config \<Rightarrow> world \<Rightarrow> state \<Rightarrow> string" where
  "primaryModelId cfg w st =
     (let preferOpenAi = now w < rateLimitedUntil st
      in if preferOpenAi then FALLBACK_MODEL cfg else PRIMARY_MODEL)"

definition primaryLabel :: "config \<Rightarrow> world \<Rightarrow> state \<Rightarrow> string" where
  "primaryLabel cfg w st = ''Primary ('' @ primaryModelId cfg w st @ '')''"

definition generate :: "config \<Rightarrow> world \<Rightarrow> turn \<Rightarrow> state \<Rightarrow> response \<times> state" where
  "generate cfg w t st =
     (case createStream cfg w t (resolveModel (primaryModelId cfg w st)) (primaryModelId cfg w st)
             (primaryLabel cfg w st) st of
        (Inl e, st1) \<Rightarrow> caught cfg w t e st1
      | (Inr primaryResult, st1) \<Rightarrow>
          (case outcome primaryResult of
             Inl e \<Rightarrow> caught cfg w t e st1
           | Inr text \<Rightarrow>
               (let st2 = finishStream t primaryResult st1
                in if length (trim text) = 0
                   then (case ensureOpenAiFallback cfg w t (Error None ''Empty Gemini output'') st2 of
                           (Inl e, st3) \<Rightarrow> caught cfg w t e st3
                         | (Inr fallbackResult, st3) \<Rightarrow>
                             (pipeDataStream fallbackResult, finishStream t fallbackResult st3))
                   else (pipeDataStream primaryResult, st2))))"

subsection \<open>The handler\<close>

definition truthy :: "string option \<Rightarrow> string option" where
  "truthy x = (case x of None \<Rightarrow> None | Some s \<Rightarrow> if s = [] then None else Some s)"

definition orElse :: "string option \<Rightarrow> string option \<Rightarrow> string option" where
  "orElse x y = (case truthy x of None \<Rightarrow> y | Some s \<Rightarrow> Some s)"

definition lastMessage :: "request \<Rightarrow> chatMessage option" where
  "lastMessage req =
     (case bodyMessages req of None \<Rightarrow> None | Some ms \<Rightarrow> if ms = [] then None else Some (last ms))"

definition resolvedSessionId :: "request \<Rightarrow> string option" where
  "resolvedSessionId req =
     truthy (orElse (bodySessionId req)
            (orElse (case lastMessage req of None \<Rightarrow> None | Some m \<Rightarrow> metadataSessionId m)
                    (querySessionId req)))"

definition userMessage :: "request \<Rightarrow> string option" where
  "userMessage req =
     (case lastMessage req of
        None \<Rightarrow> None
      | Some m \<Rightarrow> (case parts m of
                     None \<Rightarrow> None
                   | Some ps \<Rightarrow> map_option partText (find (\<lambda>p. partType p = ''text'') ps)))"

definition chat :: "config \<Rightarrow> world \<Rightarrow> request \<Rightarrow> state \<Rightarrow> response \<times> state" where
  "chat cfg w req st =
     (case (resolvedSessionId req, bodyMessages req, userMessage req) of
        (Some sessionId, Some messages, Some um) \<Rightarrow>
          if trim um = [] then (Json 400 ''Missing sessionId or message'', st)
          else if \<not> isValidObjectId w sessionId then (Json 400 ''Invalid sessionId'', st)
          else
            (let query = trim um
             in if violatesInputPolicy query then (Json 403 REFUSAL, st)
                else
                  (let st1 = saveMessage \<lparr>msgSessionId = sessionId, msgRole = User, msgContent = query\<rparr> st
                   in case hybridSearch query (lexical w) (semantic w) of
                        Inl e \<Rightarrow> requestFailed st1
                      | Inr ragResults \<Rightarrow>
                          (let context = sanitizeContext (rawContext cfg ragResults);
                               summaryText = trim (if ENABLE_ROLLING_SUMMARY cfg then sessionSummary w else [])
                           in generate cfg w
                                \<lparr>turnSession = sessionId, turnUserText = userText summaryText query context\<rparr> st1)))
      | _ \<Rightarrow> (Json 400 ''Missing sessionId or message'', st))"

section \<open>Ingestion\<close>

text \<open>
  The two stores. The vector store is a collection of records in insertion order; the
  lexical index is the document list of the in-memory MiniSearch instance.
\<close>

record lexicalDoc =
  docId :: string
  docContent :: string
  docFilePath :: string

record chunkRecord =
  recId :: string
  recDocument :: string
  recMetadata :: metadata
  recEmbedding :: "real list"

record stores =
  collection :: "chunkRecord list"
  miniSearch :: "lexicalDoc list"

text \<open>
  The library functions the ingest route calls: the SHA-256 digest, the text splitter
  (chunk size 1000, overlap 200), the embedding service, and the PDF helpers.
\<close>

record deps =
  hashContent :: "string \<Rightarrow> string"
  splitText :: "string \<Rightarrow> string list"
  embedTexts :: "string list \<Rightarrow> error + real list list"
  isPDFFile :: "string \<Rightarrow> bool"
  extractTextFromPDF :: "string \<Rightarrow> error + string"
  decodeBase64 :: "string \<Rightarrow> string"

record ingestRequest =
  reqFilePath :: "string option"
  reqContent :: "string option"
  reqContentBase64 :: "string option"

text \<open>
  \<^verbatim>\<open>miniSearch.addAll(docs)\<close> adds the documents one by one, and adding a document whose
  id is already in the index throws; what was added before stays.
\<close>

fun addAll :: "lexicalDoc list \<Rightarrow> lexicalDoc list \<Rightarrow> error option \<times> lexicalDoc list" where
  "addAll [] index = (None, index)"
| "addAll (d # ds) index =
     (if docId d \<in> set (map docId index)
      then (Some (Error None (''MiniSearch: duplicate ID '' @ docId d)), index)
      else addAll ds (index @ [d]))"

definition hasFilePath :: "string \<Rightarrow> chunkRecord \<Rightarrow> bool" where
  "hasFilePath fp r = (filePath (recMetadata r) = Some fp)"

text \<open>\<^verbatim>\<open>collection.get({ where: { filePath } })\<close> and \<^verbatim>\<open>collection.delete\<close> with that filter.\<close>

definition getWhere :: "string \<Rightarrow> chunkRecord list \<Rightarrow> chunkRecord list" where
  "getWhere fp col = filter (hasFilePath fp) col"

definition deleteWhere :: "string \<Rightarrow> chunkRecord list \<Rightarrow> chunkRecord list" where
  "deleteWhere fp col = filter (\<lambda>r. \<not> hasFilePath fp r) col"

definition chunkId :: "string \<Rightarrow> nat \<Rightarrow> string" where
  "chunkId fp index = fp @ ''_'' @ showNat index"

definition ESTIMATED_TOKENS_PER_CHUNK :: nat where
  "ESTIMATED_TOKENS_PER_CHUNK = 180"

definition TOKEN_LIMIT_PER_MINUTE :: nat where
  "TOKEN_LIMIT_PER_MINUTE = 100000"

definition CHROMA_RECORD_QUOTA :: nat where
  "CHROMA_RECORD_QUOTA = 300"

text \<open>Whether \<^verbatim>\<open>estimateTokensForText\<close> finds the text within both limits.\<close>

definition withinLimits :: "deps \<Rightarrow> string \<Rightarrow> bool" where
  "withinLimits d text =
     (if text = [] \<or> trim text = [] then True
      else (let chunks = splitText d text
            in length chunks * ESTIMATED_TOKENS_PER_CHUNK \<le> TOKEN_LIMIT_PER_MINUTE \<and>
               length chunks \<le> CHROMA_RECORD_QUOTA))"

definition ingestTextIntoChroma ::
  "deps \<Rightarrow> string \<Rightarrow> string \<Rightarrow> string \<Rightarrow> stores \<Rightarrow> error option \<times> stores" where
  "ingestTextIntoChroma d fp text hash st =
     (if text = [] \<or> length (trim text) = 0
      then (Some (Error None ''Cannot ingest empty text content''), st)
      else
        (let chunks = splitText d text
         in if chunks = [] then (Some (Error None ''Text splitting produced no chunks''), st)
            else
              (case addAll (mapIdx (\<lambda>chunk index. \<lparr>docId = chunkId fp index, docContent = chunk,
                                                     docFilePath = fp\<rparr>) 0 chunks) (miniSearch st) of
                 (Some e, index') \<Rightarrow> (Some e, st\<lparr>miniSearch := index'\<rparr>)
               | (None, index') \<Rightarrow>
                   (let st1 = st\<lparr>miniSearch := index'\<rparr>
                    in case embedTexts d chunks of
                         Inl e \<Rightarrow> (Some e, st1)
                       | Inr embeddings \<Rightarrow>
                           if length embeddings \<noteq> length chunks
                           then (Some (Error None ''Embedding mismatch''), st1)
                           else (None,
                                 st1\<lparr>collection := collection st1 @
                                        mapIdx (\<lambda>(chunk, embedding) index.
                                                  \<lparr>recId = chunkId fp index, recDocument = chunk,
                                                   recMetadata = \<lparr>filePath = Some fp, fileHash = Some hash,
                                                                  chunkIndex = Some index\<rparr>,
                                                   recEmbedding = embedding\<rparr>)
                                               0 (zip chunks embeddings)\<rparr>)))))"

datatype ingestResponse = IngestJson nat string

text \<open>
  The POST handler of the ingest route, in two parts. The first reads the payload, extracts
  the text of a PDF and yields the file path and the content to ingest, or the response
  that ends the request.
\<close>

definition processedContent :: "deps \<Rightarrow> ingestRequest \<Rightarrow> ingestResponse + string \<times> string" where
  "processedContent d req =
     (let resolvedContent =
            (case reqContent req of
               Some c \<Rightarrow> Some c
             | None \<Rightarrow> (case truthy (reqContentBase64 req) of
                          Some b \<Rightarrow> Some (decodeBase64 d b)
                        | None \<Rightarrow> None))
      in case (truthy (reqFilePath req), truthy resolvedContent) of
           (Some fp, Some resolved) \<Rightarrow>
             if isPDFFile d fp
             then (case truthy (reqContentBase64 req) of
                     None \<Rightarrow> Inl (IngestJson 400 ''Invalid payload'')
                   | Some b \<Rightarrow> (case extractTextFromPDF d b of
                                  Inl e \<Rightarrow> Inl (IngestJson 400 ''PDF extraction failed'')
                                | Inr extracted \<Rightarrow> Inr (fp, extracted)))
             else Inr (fp, resolved)
         | _ \<Rightarrow> Inl (IngestJson 400 ''Invalid payload''))"

text \<open>
  The second part checks the limits, compares the stored hash of the file with the hash
  of the content, and on a difference deletes the file's records from the vector store
  and ingests the content.
\<close>

definition ingestContent :: "deps \<Rightarrow> string \<Rightarrow> string \<Rightarrow> stores \<Rightarrow> ingestResponse \<times> stores" where
  "ingestContent d fp processed st =
     (if \<not> withinLimits d processed then (IngestJson 413 ''File exceeds limits'', st)
      else
        (let hash = hashContent d processed;
             existing = getWhere fp (collection st);
             existingHash = (case existing of [] \<Rightarrow> None | r # _ \<Rightarrow> fileHash (recMetadata r))
         in if existingHash = Some hash then (IngestJson 200 ''skipped'', st)
            else
              (case ingestTextIntoChroma d fp processed hash
                      (st\<lparr>collection := deleteWhere fp (collection st)\<rparr>) of
                 (Some e, st') \<Rightarrow> (IngestJson 500 ''Ingest failed'', st')
               | (None, st') \<Rightarrow> (IngestJson 200 ''ingested'', st'))))"

definition ingest :: "deps \<Rightarrow> ingestRequest \<Rightarrow> stores \<Rightarrow> ingestResponse \<times> stores" where
  "ingest d req st =
     (case processedContent d req of
        Inl r \<Rightarrow> (r, st)
      | Inr (fp, processed) \<Rightarrow> ingestContent d fp processed st)"

section \<open>Notions used to state the properties\<close>

text \<open>A text without word characters, and a text with \<open>n\<close> digits in a row somewhere.\<close>

definition nonWord :: "string \<Rightarrow> bool" where
  "nonWord s = (\<forall>c \<in> set s. \<not> isWordChar c)"

fun digitPrefix :: "nat \<Rightarrow> string \<Rightarrow> bool" where
  "digitPrefix 0 s = True"
| "digitPrefix (Suc n) [] = False"
| "digitPrefix (Suc n) (c # cs) = (isDigit c \<and> digitPrefix n cs)"

fun hasDigitRun :: "nat \<Rightarrow> string \<Rightarrow> bool" where
  "hasDigitRun n [] = digitPrefix n []"
| "hasDigitRun n (c # cs) = (digitPrefix n (c # cs) \<or> hasDigitRun n cs)"



text \<open>
  Patterns that can only begin to match at a word character: \<open>startsWord\<close> holds when
  the first character a pattern consumes is a letter, a digit or an underscore.
\<close>

fun wordItem :: "item \<Rightarrow> bool" where
  "wordItem (One c) = isWordChar c"
| "wordItem (Rng lo hi) = ((isDigit lo \<and> isDigit hi) \<or> (isAsciiLower lo \<and> isAsciiLower hi) \<or>
                           (isAsciiUpper lo \<and> isAsciiUpper hi))"
| "wordItem ClsDigit = True"
| "wordItem ClsSpace = False"

fun consumesNothing :: "re \<Rightarrow> bool" where
  "consumesNothing Eps = True"
| "consumesNothing WordB = True"
| "consumesNothing (Seq a b) = (consumesNothing a \<and> consumesNothing b)"
| "consumesNothing _ = False"

fun startsWord :: "re \<Rightarrow> bool" where
  "startsWord (Lit c) = isWordChar c"
| "startsWord (Cls neg items) = (\<not> neg \<and> list_all wordItem items)"
| "startsWord (Seq a b) = (startsWord a \<or> (consumesNothing a \<and> startsWord b))"
| "startsWord (Alt a b) = (startsWord a \<and> startsWord b)"
| "startsWord (Rep m n a) = (m > 0 \<and> startsWord a)"
| "startsWord _ = False"

text \<open>The character before the position reached after reading \<open>u\<close>.\<close>

definition prevAfter :: "char option \<Rightarrow> string \<Rightarrow> char option" where
  "prevAfter prev u = (if u = [] then prev else Some (last u))"

text \<open>The calls the route makes, and two messages it persists.\<close>

definition primaryCall :: "config \<Rightarrow> world \<Rightarrow> turn \<Rightarrow> state \<Rightarrow> call" where
  "primaryCall cfg w t st =
     mkCall cfg t (resolveModel (primaryModelId cfg w st)) (primaryModelId cfg w st) (primaryLabel cfg w st)"

definition fallbackCall :: "config \<Rightarrow> turn \<Rightarrow> call" where
  "fallbackCall cfg t = mkCall cfg t OpenAI (FALLBACK_MODEL cfg) (fallbackLabel cfg)"

definition blockedMessage :: "string \<Rightarrow> savedMessage" where
  "blockedMessage sessionId = \<lparr>msgSessionId = sessionId, msgRole = Assistant, msgContent = BLOCKED_RESPONSE\<rparr>"


section \<open>Example inputs\<close>

text \<open>One chunk of a knowledge file, as each retrieval branch reports it.\<close>

definition chunkText :: string where
  "chunkText = ''Deep learning uses multiple layers''"

definition lexHit :: "real \<Rightarrow> lexicalHit" where
  "lexHit s = \<lparr>hitId = ''ai.md_0'', hitContent = chunkText, hitFilePath = ''ai.md'', hitScore = s\<rparr>"

definition otherHit :: "real \<Rightarrow> lexicalHit" where
  "otherHit s = \<lparr>hitId = ''ai.md_1'', hitContent = ''Neural networks are inspired by the brain'',
                 hitFilePath = ''ai.md'', hitScore = s\<rparr>"

definition chunkMeta :: metadata where
  "chunkMeta = \<lparr>filePath = Some ''ai.md'', fileHash = Some ''h1'', chunkIndex = Some 0\<rparr>"

definition semHit :: "real \<Rightarrow> queryResponse" where
  "semHit distance = \<lparr>documents = Some [Some chunkText], metadatas = Some [Some chunkMeta],
                  distances = Some [Some distance]\<rparr>"

definition noSemHits :: queryResponse where
  "noSemHits = \<lparr>documents = Some [], metadatas = Some [], distances = Some []\<rparr>"

definition timeoutError :: error where
  "timeoutError = Error None ''vector store timeout''"

text \<open>A chat request and the collaborators around it.\<close>

definition st0 :: state where
  "st0 = \<lparr>saved = [], calls = [], rateLimitedUntil = 0\<rparr>"

definition sid0 :: string where
  "sid0 = ''507f1f77bcf86cd799439011''"

definition isHexDigit :: "char \<Rightarrow> bool" where
  "isHexDigit c = (isDigit c \<or> (CHR ''a'' \<le> c \<and> c \<le> CHR ''f'') \<or> (CHR ''A'' \<le> c \<and> c \<le> CHR ''F''))"

text \<open>An identifier check that accepts the strings of 24 hexadecimal digits.\<close>

definition hex24 :: "string \<Rightarrow> bool" where
  "hex24 s = (length s = 24 \<and> list_all isHexDigit s)"

definition answerText :: string where
  "answerText = ''Deep learning stacks many layers.''"

definition baseWorld :: world where
  "baseWorld = \<lparr>now = 1000, isValidObjectId = hex24, lexical = Inr [lexHit 1], semantic = Inr (semHit 0),
                sessionSummary = [], respond = (\<lambda>n c. Finishes answerText)\<rparr>"


definition withKey :: config where
  "withKey = defaultConfig\<lparr>OPENAI_API_KEY := Some ''sk-test''\<rparr>"

definition chatRequest :: "string option \<Rightarrow> string \<Rightarrow> request" where
  "chatRequest sid text =
     \<lparr>bodySessionId = sid,
      bodyMessages = Some [\<lparr>parts = Some [\<lparr>partType = ''text'', partText = text\<rparr>], metadataSessionId = None\<rparr>],
      querySessionId = None\<rparr>"

definition turn0 :: turn where
  "turn0 = \<lparr>turnSession = sid0, turnUserText = ''what is deep learning''\<rparr>"

definition bankQuestion :: string where
  "bankQuestion = ''what is my bank balance''"

text \<open>A model answer with a card number in it.\<close>

definition cardText :: string where
  "cardText = ''Use the card 4532123456789010 for payment''"

definition cardWorld :: world where
  "cardWorld = baseWorld\<lparr>respond := (\<lambda>n c. Finishes cardText)\<rparr>"

text \<open>
  The primary model answers with the empty text, the first creation of the fallback
  stream throws, and a later one answers.
\<close>

definition emptyThenThrow :: world where
  "emptyThenThrow = baseWorld\<lparr>respond := (\<lambda>n c. if n = 0 then Finishes []
       else if n = 1 then CreateThrows (Error None ''unsupported model version'')
       else Finishes answerText)\<rparr>"




definition routeContext :: string where
  "routeContext = ''Source 1 (ai.md):'' @ CHR 0x0A # ''card 1234567890123456 ok''"

text \<open>
  Ingestion with a splitter that keeps a short text in one chunk, a digest that is
  injective on the examples, and an embedding service that answers.
\<close>

definition deps0 :: deps where
  "deps0 = \<lparr>hashContent = (\<lambda>text. ''sha256:'' @ text), splitText = (\<lambda>text. [text]),
            embedTexts = (\<lambda>chunks. Inr (map (\<lambda>c. [0]) chunks)), isPDFFile = (\<lambda>fp. False),
            extractTextFromPDF = (\<lambda>b. Inl (Error None ''not a PDF'')), decodeBase64 = (\<lambda>b. b)\<rparr>"

definition ingestRequestOf :: "string \<Rightarrow> string \<Rightarrow> ingestRequest" where
  "ingestRequestOf fp text = \<lparr>reqFilePath = Some fp, reqContent = Some text, reqContentBase64 = None\<rparr>"

definition noStores :: stores where
  "noStores = \<lparr>collection = [], miniSearch = []\<rparr>"

text \<open>The stores after \<open>ai.md\<close> has been ingested with the content \<open>first version\<close>.\<close>

definition firstVersion :: stores where
  "firstVersion =
     \<lparr>collection = [\<lparr>recId = ''ai.md_0'', recDocument = ''first version'',
                      recMetadata = \<lparr>filePath = Some ''ai.md'', fileHash = Some ''sha256:first version'',
                                     chunkIndex = Some 0\<rparr>,
                      recEmbedding = [0]\<rparr>],
      miniSearch = [\<lparr>docId = ''ai.md_0'', docContent = ''first version'', docFilePath = ''ai.md''\<rparr>]\<rparr>"



section \<open>Properties of hybrid search\<close>

lemma trim_deep_learning: "trim ''deep learning'' \<noteq> []"
  by (simp add: trim_def isSpace_def)

lemma withFinalScore_simps:
  "content (withFinalScore d) = content d"
  "meta (withFinalScore d) = meta d"
  "score (withFinalScore d) = score d"
  "source (withFinalScore d) = source d"
  "finalScore (withFinalScore d) =
     (if source d = Semantic then score d * SEMANTIC_WEIGHT else score d * LEXICAL_WEIGHT)"
  by (simp_all add: withFinalScore_def doc.defs hybridSearchResult.defs)

text \<open>
  Every ranked result is one retrieved candidate with its own branch's weight applied to
  its raw score, and nothing is merged: up to five candidates, each list entry of the two
  branches gives one result.
\<close>

lemma ranked_members:
  "r \<in> set (ranked combined) \<Longrightarrow> \<exists>d \<in> set combined. r = withFinalScore d"
proof -
  assume "r \<in> set (ranked combined)"
  then have "r \<in> set (sort_key (\<lambda>r. - finalScore r) (map withFinalScore combined))"
    unfolding ranked_def by (rule in_set_takeD)
  then show ?thesis by auto
qed

lemma ranked_length: "length (ranked combined) = min 5 (length combined)"
  by (simp add: ranked_def min_def)

text \<open>
  C1. A candidate that both branches retrieve, with the same file path and chunk (chunk 0
  of \<open>ai.md\<close>, semantic distance 0, lexical score 1), does not appear once with the sum
  of the two weighted scores: the result holds it twice, once per branch, with final
  scores 0.7 and 0.3.
\<close>

theorem C1_duplicate_candidate_not_fused:
  "hybridSearch ''deep learning'' (Inr [lexHit 1]) (Inr (semHit 0)) =
     Inr [\<lparr>content = chunkText, meta = Some chunkMeta, score = 1, source = Semantic, finalScore = 0.7\<rparr>,
          \<lparr>content = chunkText,
           meta = Some \<lparr>filePath = Some ''ai.md'', fileHash = None, chunkIndex = None\<rparr>,
           score = 1, source = Lexical, finalScore = 0.3\<rparr>]"
  by (simp add: hybridSearch_def trim_deep_learning ranked_def semanticDocs_def lexicalDocs_def
      semHit_def lexHit_def atIndex_def withFinalScore_def doc.defs hybridSearchResult.defs
      SEMANTIC_WEIGHT_def LEXICAL_WEIGHT_def)

text \<open>
  C2. The scores of a branch are not divided by the branch's maximum: with lexical
  scores 10 and 5 and no semantic result, the final scores are 3 and 1.5, which are the
  raw scores times 0.3, not 0.3 and 0.15.
\<close>

theorem C2_scores_not_normalized:
  "map_sum id (map finalScore) (hybridSearch ''deep learning'' (Inr [lexHit 10, otherHit 5]) (Inr noSemHits)) =
     Inr [3, 1.5]"
  by (simp add: hybridSearch_def trim_deep_learning ranked_def semanticDocs_def lexicalDocs_def
      noSemHits_def lexHit_def otherHit_def withFinalScore_def doc.defs hybridSearchResult.defs
      LEXICAL_WEIGHT_def)

text \<open>
  C3, as stated, fails: when the semantic branch times out while the lexical branch has
  a hit, the search does not return the lexical ranking but the error.
\<close>

theorem C3_semantic_failure_counterexample:
  "hybridSearch ''deep learning'' (Inr [lexHit 1]) (Inl timeoutError) = Inl timeoutError"
  by (simp add: hybridSearch_def trim_deep_learning)

text \<open>
  C3, amended. A blank query returns the empty list, whatever the branches would do.
  On a non-blank query a failure of the semantic branch leaves \<^verbatim>\<open>hybridSearch\<close> as
  that error even when the lexical branch has results, and so does a failure of the
  lexical branch; when both branches answer, the result is the ranking of their
  results. So a ranking is returned only when both branches answer or the query is
  blank, and there is no retrieval-unavailable condition apart from the error raised.
\<close>

theorem C3_retrieval_failure_is_raised:
  "(trim query = [] \<longrightarrow> hybridSearch query lexOut semOut = Inr []) \<and>
   (trim query \<noteq> [] \<longrightarrow> hybridSearch query (Inr hits) (Inl e) = Inl e) \<and>
   (trim query \<noteq> [] \<longrightarrow> hybridSearch query (Inl e) semOut = Inl e) \<and>
   (trim query \<noteq> [] \<longrightarrow>
      hybridSearch query (Inr hits) (Inr answer) = Inr (ranked (semanticDocs answer @ lexicalDocs hits))) \<and>
   (hybridSearch query lexOut semOut = Inr results \<longrightarrow>
      (trim query = [] \<and> results = []) \<or>
      (\<exists>hits' answer'. lexOut = Inr hits' \<and> semOut = Inr answer' \<and>
         results = ranked (semanticDocs answer' @ lexicalDocs hits')))"
  by (auto simp add: hybridSearch_def split: sum.splits if_splits)

theorem C3_retrieval_failure_is_raised_witness:
  "trim ''   '' = [] \<and>
   hybridSearch ''   '' (Inl timeoutError) (Inl timeoutError) = Inr [] \<and>
   trim ''deep learning'' \<noteq> [] \<and>
   hybridSearch ''deep learning'' (Inr [lexHit 1]) (Inl timeoutError) = Inl timeoutError \<and>
   hybridSearch ''deep learning'' (Inl timeoutError) (Inr (semHit 0)) = Inl timeoutError \<and>
   hybridSearch ''deep learning'' (Inr [lexHit 1]) (Inr (semHit 0)) =
     Inr (ranked (semanticDocs (semHit 0) @ lexicalDocs [lexHit 1]))"
proof -
  have b: "trim ''   '' = []" by (simp add: trim_def isSpace_def)
  have t: "trim ''deep learning'' \<noteq> []" by (rule trim_deep_learning)
  from C3_retrieval_failure_is_raised [where query = "''   ''" and lexOut = "Inl timeoutError"
      and semOut = "Inl timeoutError" and hits = "[]" and e = timeoutError and answer = noSemHits
      and results = "[]"] b
  have blank: "hybridSearch ''   '' (Inl timeoutError) (Inl timeoutError) = Inr []" by blast
  from C3_retrieval_failure_is_raised [where query = "''deep learning''" and hits = "[lexHit 1]"
      and e = timeoutError and semOut = "Inr (semHit 0)" and lexOut = "Inr [lexHit 1]"
      and answer = "semHit 0"
      and results = "ranked (semanticDocs (semHit 0) @ lexicalDocs [lexHit 1])"] t
  have "hybridSearch ''deep learning'' (Inr [lexHit 1]) (Inl timeoutError) = Inl timeoutError"
    and "hybridSearch ''deep learning'' (Inl timeoutError) (Inr (semHit 0)) = Inl timeoutError"
    and "hybridSearch ''deep learning'' (Inr [lexHit 1]) (Inr (semHit 0)) =
           Inr (ranked (semanticDocs (semHit 0) @ lexicalDocs [lexHit 1]))"
    by blast+
  with b t blank show ?thesis by blast
qed

section \<open>Properties of the pattern engine\<close>

lemma replaceAllFrom_no_match:
  "\<not> testFrom p prev s \<Longrightarrow> replaceAllFrom p prev 0 s = s"
  by (induction s arbitrary: prev) auto

lemma replaceFirstFrom_no_match:
  "\<not> testFrom p prev s \<Longrightarrow> replaceFirstFrom p prev s = s"
  by (induction s arbitrary: prev) auto

lemma replace_no_match: "\<not> test p s \<Longrightarrow> replace p s = s"
  by (simp add: test_def replace_def replaceAllFrom_no_match replaceFirstFrom_no_match)

lemma replaceEach_no_match:
  "\<forall>p \<in> set ps. \<not> test p s \<Longrightarrow> replaceEach ps s = s"
  by (induction ps) (simp_all add: replace_no_match)

lemma redactEach_no_match:
  "\<forall>p \<in> set ps. \<not> test p s \<Longrightarrow> redactEach ps s = s"
  by (induction ps) simp_all

lemma splitLines_nonempty: "splitLines s \<noteq> []"
  by (induction s) (auto split: list.splits)

lemma joinLines_Cons: "ls \<noteq> [] \<Longrightarrow> joinLines (l # ls) = l @ CHR 0x0A # joinLines ls"
  by (cases ls) simp_all

lemma joinLines_splitLines: "joinLines (splitLines s) = s"
proof (induction s)
  case Nil
  show ?case by simp
next
  case (Cons c cs)
  show ?case
  proof (cases "c = CHR 0x0A")
    case True
    with Cons show ?thesis by (simp add: joinLines_Cons splitLines_nonempty)
  next
    case False
    obtain l ls where sp: "splitLines cs = l # ls"
      using splitLines_nonempty [of cs] by (cases "splitLines cs") auto
    from Cons sp have "joinLines ((c # l) # ls) = c # cs"
      by (cases ls) auto
    with False sp show ?thesis by simp
  qed
qed

lemma filterInstructionContent_clean:
  "\<forall>line \<in> set (splitLines text). keepLine line \<Longrightarrow> filterInstructionContent text = text"
  by (simp add: filterInstructionContent_def joinLines_splitLines)

lemma sanitize_empty: "sanitizeContext [] = []"
  by code_simp
lemma sanitize_empty_report: "validateContextSafety [] = \<lparr>safe = True, issues = []\<rparr>"
  by code_simp


text \<open>Facts about single characters are checked on all 256 of them.\<close>

lemma word_of_flipped_all:
  "\<forall>x b. (isDigit (setBit5 b x) \<or> isAsciiLower (setBit5 b x) \<or> isAsciiUpper (setBit5 b x)) \<and>
     canonicalize (setBit5 b x) = canonicalize x \<longrightarrow> isWordChar x"
  by code_simp

lemma word_of_flipped:
  "isDigit (setBit5 b x) \<or> isAsciiLower (setBit5 b x) \<or> isAsciiUpper (setBit5 b x) \<Longrightarrow>
   canonicalize (setBit5 b x) = canonicalize x \<Longrightarrow> isWordChar x"
  using word_of_flipped_all by blast

lemma canonicalize_word_all: "\<forall>x. isWordChar (canonicalize x) = isWordChar x"
  by code_simp

lemma canonicalize_word: "isWordChar (canonicalize x) \<Longrightarrow> isWordChar x"
  using canonicalize_word_all by simp

lemma canonicalize_word2: "isWordChar c \<Longrightarrow> isWordChar (canonicalize c)"
  using canonicalize_word_all by simp

lemma chEq_word: "isWordChar c \<Longrightarrow> chEq ic c x \<Longrightarrow> isWordChar x"
proof (cases ic)
  case True
  assume w: "isWordChar c" and e: "chEq ic c x"
  from e True have "canonicalize c = canonicalize x" by (simp add: chEq_def)
  with canonicalize_word2 [OF w] have "isWordChar (canonicalize x)" by simp
  then show ?thesis by (rule canonicalize_word)
next
  case False
  assume "isWordChar c" "chEq ic c x"
  with False show ?thesis by (simp add: chEq_def)
qed

lemma inItem_word: "wordItem i \<Longrightarrow> inItem ic i x \<Longrightarrow> isWordChar x"
proof (cases i)
  case (One c)
  assume "wordItem i" "inItem ic i x"
  with One show ?thesis by (auto intro: chEq_word)
next
  case (Rng lo hi)
  assume w: "wordItem i" and m: "inItem ic i x"
  have cls: "isDigit y \<or> isAsciiLower y \<or> isAsciiUpper y" if "lo \<le> y" "y \<le> hi" for y
    using w Rng that by (auto simp add: isDigit_def isAsciiLower_def isAsciiUpper_def)
  from m Rng consider "lo \<le> x" "x \<le> hi"
    | b where "lo \<le> setBit5 b x" "setBit5 b x \<le> hi" "canonicalize (setBit5 b x) = canonicalize x"
    by auto
  then show ?thesis
  proof cases
    case 1
    from cls [OF 1] show ?thesis by (auto simp add: isWordChar_def)
  next
    case 2
    from cls [OF 2(1,2)] 2(3) show ?thesis by (rule word_of_flipped)
  qed
next
  case ClsDigit
  assume "inItem ic i x"
  with ClsDigit show ?thesis by (simp add: isWordChar_def)
next
  case ClsSpace
  assume "wordItem i"
  with ClsSpace show ?thesis by simp
qed

lemma inClass_word: "list_all wordItem items \<Longrightarrow> inClass ic items x \<Longrightarrow> isWordChar x"
  by (auto simp add: inClass_def list_all_iff list_ex_iff intro: inItem_word)

lemma consumesNothing_same: "consumesNothing r \<Longrightarrow> k' \<in> set (rmatch r ic k) \<Longrightarrow> k' = k"
proof (induction r arbitrary: k k')
  case (Seq a b)
  from Seq.prems obtain k1 where k1: "k1 \<in> set (rmatch a ic k)" and k2: "k' \<in> set (rmatch b ic k1)"
    by auto
  from Seq.prems(1) have ca: "consumesNothing a" and cb: "consumesNothing b" by simp_all
  from Seq.IH(1) [OF ca k1] Seq.IH(2) [OF cb k2] show ?case by simp
qed (auto split: if_splits)

lemma stepIf_word:
  "(\<And>x. P x \<Longrightarrow> isWordChar x) \<Longrightarrow> \<not> isWordAt (nextChar (snd k)) \<Longrightarrow> stepIf P k = []"
  by (auto simp add: stepIf_def isWordAt_def nextChar_def split: list.splits)

lemma startsWord_no_match:
  "startsWord r \<Longrightarrow> \<not> isWordAt (nextChar (snd k)) \<Longrightarrow> rmatch r ic k = []"
proof (induction r arbitrary: k)
  case (Lit c)
  then show ?case by (auto intro!: stepIf_word intro: chEq_word)
next
  case (Cls neg items)
  then show ?case by (auto intro!: stepIf_word intro: inClass_word)
next
  case (Seq a b)
  show ?case
  proof (cases "startsWord a")
    case True
    with Seq show ?thesis by simp
  next
    case False
    with Seq.prems have cn: "consumesNothing a" and sb: "startsWord b" by auto
    have "rmatch b ic k' = []" if "k' \<in> set (rmatch a ic k)" for k'
      using consumesNothing_same [OF cn that] Seq.IH(2) [OF sb] Seq.prems(2) by simp
    then show ?thesis by simp
  qed
next
  case (Rep m n a)
  then obtain m' where "m = Suc m'" by (cases m) auto
  with Rep show ?case by simp
qed simp_all

lemma matchAt_startsWord:
  "startsWord (body p) \<Longrightarrow> \<not> isWordAt (nextChar s) \<Longrightarrow> matchAt p (prev, s) = None"
  by (simp add: matchAt_def startsWord_no_match)

lemma nonWord_next: "nonWord s \<Longrightarrow> \<not> isWordAt (nextChar s)"
  by (cases s) (simp_all add: nonWord_def isWordAt_def nextChar_def)

lemma testFrom_skip_nonWord:
  "startsWord (body p) \<Longrightarrow> nonWord u \<Longrightarrow>
   testFrom p prev (u @ v) = testFrom p (prevAfter prev u) v"
proof (induction u arbitrary: prev)
  case Nil
  then show ?case by (simp add: prevAfter_def)
next
  case (Cons c u)
  from Cons.prems have nc: "\<not> isWordChar c" and nu: "nonWord u" by (simp_all add: nonWord_def)
  have "matchAt p (prev, c # u @ v) = None"
    using Cons.prems(1) nc by (intro matchAt_startsWord) (simp_all add: isWordAt_def nextChar_def)
  moreover have "prevAfter (Some c) u = prevAfter prev (c # u)" by (simp add: prevAfter_def)
  ultimately show ?case using Cons.IH [OF Cons.prems(1) nu] by simp
qed

lemma testFrom_nonWord: "startsWord (body p) \<Longrightarrow> nonWord u \<Longrightarrow> \<not> testFrom p prev u"
proof (induction u arbitrary: prev)
  case Nil
  then show ?case by (simp add: matchAt_startsWord isWordAt_def nextChar_def)
next
  case (Cons c u)
  then show ?case by (simp add: matchAt_startsWord isWordAt_def nextChar_def nonWord_def)
qed

lemma replaceAllFrom_skip_nonWord:
  "startsWord (body p) \<Longrightarrow> nonWord u \<Longrightarrow>
   replaceAllFrom p prev 0 (u @ c # v) = u @ replaceAllFrom p (prevAfter prev u) 0 (c # v)"
proof (induction u arbitrary: prev)
  case Nil
  then show ?case by (simp add: prevAfter_def)
next
  case (Cons d u)
  from Cons.prems have nc: "\<not> isWordChar d" and nu: "nonWord u" by (simp_all add: nonWord_def)
  have "matchAt p (prev, d # u @ c # v) = None"
    using Cons.prems(1) nc by (intro matchAt_startsWord) (simp_all add: isWordAt_def nextChar_def)
  moreover have "prevAfter (Some d) u = prevAfter prev (d # u)" by (simp add: prevAfter_def)
  ultimately show ?case using Cons.IH [OF Cons.prems(1) nu] by simp
qed

lemma replaceAllFrom_drop:
  "length u = n \<Longrightarrow> replaceAllFrom p prev n (u @ v) = replaceAllFrom p (prevAfter prev u) 0 v"
proof (induction u arbitrary: prev n)
  case Nil
  then show ?case by (simp add: prevAfter_def)
next
  case (Cons d u)
  then obtain n' where n: "n = Suc n'" and l: "length u = n'" by (cases n) auto
  have "prevAfter (Some d) u = prevAfter prev (d # u)" by (simp add: prevAfter_def)
  with Cons.IH [OF l, of "Some d"] n show ?case by simp
qed

lemma digit_word: "isDigit c \<Longrightarrow> isWordChar c"
  by (simp add: isWordChar_def)

lemma stepIf_Cons: "stepIf P (prev, x # xs) = (if P x then [(Some x, xs)] else [])"
  by (simp add: stepIf_def)

lemma prevAfter_Cons: "prevAfter (Some c) u = prevAfter prev (c # u)"
  by (simp add: prevAfter_def)

lemma repExact_stepIf:
  "\<forall>c \<in> set u. P c \<Longrightarrow> length u = n \<Longrightarrow>
   repExact n (stepIf P) (prev, u @ v) = [(prevAfter prev u, v)]"
proof (induction u arbitrary: prev n)
  case Nil
  then show ?case by (simp add: prevAfter_def)
next
  case (Cons c u)
  then obtain n' where n: "n = Suc n'" and l: "length u = n'" by (cases n) auto
  from Cons.prems have "P c" and "\<forall>c \<in> set u. P c" by simp_all
  with Cons.IH [OF _ l, of "Some c"] n show ?case
    by (simp add: stepIf_Cons prevAfter_Cons [of c u prev])
qed

lemma repUpto_stepIf:
  "\<forall>c \<in> set u. P c \<Longrightarrow> length u = n \<Longrightarrow>
   \<exists>rest. repUpto n (stepIf P) (prev, u @ v) = (prevAfter prev u, v) # rest"
proof (induction u arbitrary: prev n)
  case Nil
  then show ?case by (simp add: prevAfter_def)
next
  case (Cons c u)
  then obtain n' where n: "n = Suc n'" and l: "length u = n'" by (cases n) auto
  from Cons.prems have "P c" and "\<forall>c \<in> set u. P c" by simp_all
  with Cons.IH [OF _ l, of "Some c"] n show ?case
    by (auto simp add: stepIf_Cons prevAfter_Cons [of c u prev])
qed

lemma matchAt_run16:
  assumes p: "\<not> isWordAt prev" and len: "length run = 16" and dig: "\<forall>c \<in> set run. isDigit c"
    and post: "\<not> isWordAt (nextChar post)"
  shows "matchAt (rxG (seqs [WordB, Rep 12 (Some 16) reDigit, WordB])) (prev, run @ post) = Some 16"
proof -
  define f where "f = rmatch reDigit False"
  have f: "f = stepIf isDigit"
    by (rule ext) (simp add: f_def reDigit_def inClass_def stepIf_def split: list.splits)
  define u1 u2 where "u1 = take 12 run" and "u2 = drop 12 run"
  have run: "run = u1 @ u2" and l1: "length u1 = 12" and l2: "length u2 = 4"
    using len by (simp_all add: u1_def u2_def)
  from dig run have d1: "\<forall>c \<in> set u1. isDigit c" and d2: "\<forall>c \<in> set u2. isDigit c" by auto
  from len obtain c cs where rc: "run = c # cs" by (cases run) auto
  with dig have "isWordChar c" by (simp add: digit_word)
  with p rc have b0: "rmatch WordB False (prev, run @ post) = [(prev, run @ post)]"
    by (simp add: isWordAt_def nextChar_def)
  have e: "repExact 12 f (prev, run @ post) = [(prevAfter prev u1, u2 @ post)]"
    using repExact_stepIf [OF d1 l1, of prev "u2 @ post"] by (simp add: f run)
  obtain rest where r: "repUpto 4 f (prevAfter prev u1, u2 @ post) = (prevAfter (prevAfter prev u1) u2, post) # rest"
    using repUpto_stepIf [OF d2 l2, of "prevAfter prev u1" post] by (auto simp add: f)
  from l2 have "u2 \<noteq> []" by auto
  with d2 have "isWordAt (prevAfter (prevAfter prev u1) u2)"
    by (simp add: prevAfter_def isWordAt_def digit_word)
  with post have b1: "rmatch WordB False (prevAfter (prevAfter prev u1) u2, post) =
      [(prevAfter (prevAfter prev u1) u2, post)]" by simp
  have "rmatch (seqs [WordB, Rep 12 (Some 16) reDigit, WordB]) False (prev, run @ post) =
        (prevAfter (prevAfter prev u1) u2, post) # concat (map (rmatch WordB False) rest)"
    using b0 e r b1 by (simp add: f_def [symmetric])
  then show ?thesis using len by (simp add: matchAt_def rxG_def)
qed

lemmas eval_defs = matchAt_def rxI_def rxG_def rxGI_def rx_def words_def str_def stepIf_Cons
  chEq_def canonicalize_def isAsciiLower_def isAsciiUpper_def isLatinLower_def isDigit_def
  isWordChar_def isWordAt_def nextChar_def inClass_def reDigit_def reSpace_def reStar_def rePlus_def
  hashSpace_def digitDash_def az_def keyChars_def isSpace_def


lemma startsWith_set: "startsWith hay needle \<Longrightarrow> set needle \<subseteq> set hay"
  by (induction hay needle rule: startsWith.induct) auto

lemma includesStr_set: "includesStr hay needle \<Longrightarrow> set needle \<subseteq> set hay"
proof (induction hay)
  case Nil
  then show ?case by (auto dest: startsWith_set)
next
  case (Cons c hay)
  from Cons.prems have "startsWith (c # hay) needle \<or> includesStr hay needle" by simp
  then show ?case
  proof
    assume "startsWith (c # hay) needle"
    then show ?thesis by (rule startsWith_set)
  next
    assume "includesStr hay needle"
    then have "set needle \<subseteq> set hay" by (rule Cons.IH)
    then show ?thesis by auto
  qed
qed

lemma startsWith_append: "startsWith (b @ c) b"
  by (induction b) simp_all

lemma includesStr_startsWith: "startsWith hay needle \<Longrightarrow> includesStr hay needle"
  by (cases hay) simp_all

lemma includesStr_append: "includesStr (a @ b @ c) b"
  by (induction a) (simp_all add: includesStr_startsWith startsWith_append)

lemma splitLines_set: "line \<in> set (splitLines s) \<Longrightarrow> set line \<subseteq> set s"
proof (induction s arbitrary: line)
  case Nil
  then show ?case by simp
next
  case (Cons c cs)
  show ?case
  proof (cases "c = CHR 0x0A")
    case True
    with Cons show ?thesis by auto
  next
    case False
    obtain l ls where sp: "splitLines cs = l # ls"
      using splitLines_nonempty [of cs] by (cases "splitLines cs") auto
    with False Cons.prems have "line = c # l \<or> line \<in> set ls" by simp
    then show ?thesis
    proof
      assume "line = c # l"
      moreover have "set l \<subseteq> set cs" using Cons.IH [of l] sp by simp
      ultimately show ?thesis by auto
    next
      assume "line \<in> set ls"
      then have "set line \<subseteq> set cs" using Cons.IH [of line] sp by simp
      then show ?thesis by auto
    qed
  qed
qed

lemma toLowerChar_iy_all:
  "\<forall>c. toLowerChar c = CHR ''i'' \<or> toLowerChar c = CHR ''y'' \<longrightarrow> isWordChar c"
  by code_simp

lemma toLowerChar_iy:
  "toLowerChar c = CHR ''i'' \<or> toLowerChar c = CHR ''y'' \<Longrightarrow> isWordChar c"
  using toLowerChar_iy_all by blast

lemma keepLine_no_iy:
  assumes "\<forall>c \<in> set line. toLowerChar c \<noteq> CHR ''i'' \<and> toLowerChar c \<noteq> CHR ''y''"
  shows "keepLine line"
proof -
  have i: "CHR ''i'' \<notin> set (toLowerCase line)" and y: "CHR ''y'' \<notin> set (toLowerCase line)"
    using assms by (auto simp add: toLowerCase_def)
  have "\<not> includesStr (toLowerCase line) ''always say''"
    using y includesStr_set [of "toLowerCase line" "''always say''"] by auto
  moreover have "\<not> includesStr (toLowerCase line) ''ignore''"
    using i includesStr_set [of "toLowerCase line" "''ignore''"] by auto
  moreover have "\<not> includesStr (toLowerCase line) ''override''"
    using i includesStr_set [of "toLowerCase line" "''override''"] by auto
  moreover have "\<not> includesStr (toLowerCase line) ''new instructions''"
    using i includesStr_set [of "toLowerCase line" "''new instructions''"] by auto
  ultimately show ?thesis by (simp add: keepLine_def)
qed


lemma prevAfter_nonWord: "nonWord u \<Longrightarrow> \<not> isWordAt (prevAfter None u)"
  by (cases u rule: rev_cases) (simp_all add: prevAfter_def isWordAt_def nonWord_def)

lemma marker_clean_one:
  assumes sw: "startsWord (body p)"
    and mk: "\<And>post. nonWord post \<Longrightarrow> \<not> testFrom p (Some (CHR ''['')) (''REDACTED]'' @ post)"
    and pre: "nonWord pre" and post: "nonWord post"
  shows "\<not> test p (pre @ REDACTED @ post)"
proof -
  have nw: "nonWord (pre @ ''['')" using pre by (simp add: nonWord_def isWordChar_def isAsciiLower_def
        isAsciiUpper_def isDigit_def)
  have "testFrom p None ((pre @ ''['') @ (''REDACTED]'' @ post)) =
        testFrom p (prevAfter None (pre @ ''['')) (''REDACTED]'' @ post)"
    using sw nw
    by (rule testFrom_skip_nonWord)
  then show ?thesis using mk [OF post] by (simp add: test_def REDACTED_def prevAfter_def)
qed

lemma sanitize_stage1:
  assumes len: "length run = 16" and dig: "\<forall>c \<in> set run. isDigit c"
    and pre: "nonWord pre" and post: "nonWord post"
  shows "replace (rxG (seqs [WordB, Rep 12 (Some 16) reDigit, WordB])) (pre @ run @ post) =
         pre @ REDACTED @ post"
proof -
  let ?p = "rxG (seqs [WordB, Rep 12 (Some 16) reDigit, WordB])"
  have sw: "startsWord (body ?p)" by (simp add: rxG_def reDigit_def)
  from len obtain c cs where run: "run = c # cs" and lcs: "length cs = 15" by (cases run) auto
  have m: "matchAt ?p (prevAfter None pre, c # cs @ post) = Some 16"
    using matchAt_run16 [OF prevAfter_nonWord [OF pre] len dig nonWord_next [OF post]]
    by (simp add: run)
  have "replaceAllFrom ?p None 0 (pre @ c # cs @ post) =
        pre @ replaceAllFrom ?p (prevAfter None pre) 0 (c # cs @ post)"
    using sw pre by (rule replaceAllFrom_skip_nonWord)
  also have "replaceAllFrom ?p (prevAfter None pre) 0 (c # cs @ post) =
        REDACTED @ replaceAllFrom ?p (Some c) 15 (cs @ post)"
    using m by (simp add: eval_nat_numeral)
  also have "replaceAllFrom ?p (Some c) 15 (cs @ post) = replaceAllFrom ?p (prevAfter (Some c) cs) 0 post"
    using lcs by (rule replaceAllFrom_drop)
  also have "\<dots> = post"
    using testFrom_nonWord [OF sw post] by (rule replaceAllFrom_no_match)
  finally show ?thesis by (simp add: replace_def rxG_def run)
qed

lemmas marker_eval = eval_defs testFrom_nonWord nonWord_def eval_nat_numeral

lemma later_patterns_clean:
  assumes pre: "nonWord pre" and post: "nonWord post"
  shows "\<forall>p \<in> set (tl SENSITIVE_CONTEXT_PATTERNS). \<not> test p (pre @ REDACTED @ post)"
    and "\<forall>p \<in> set sensitivePatterns. \<not> test p (pre @ REDACTED @ post)"
proof -
  have one: "\<not> test p (pre @ REDACTED @ post)"
    if "startsWord (body p)"
      and "\<And>post. nonWord post \<Longrightarrow> \<not> testFrom p (Some (CHR ''['')) (''REDACTED]'' @ post)" for p
    using that pre post by (rule marker_clean_one)
  show "\<forall>p \<in> set (tl SENSITIVE_CONTEXT_PATTERNS). \<not> test p (pre @ REDACTED @ post)"
    unfolding SENSITIVE_CONTEXT_PATTERNS_def
    by (simp, intro conjI one; simp add: marker_eval)
  show "\<forall>p \<in> set sensitivePatterns. \<not> test p (pre @ REDACTED @ post)"
    unfolding sensitivePatterns_def
    by (simp, intro conjI one; simp add: marker_eval)
qed

lemma marker_lines_kept:
  assumes pre: "nonWord pre" and post: "nonWord post"
  shows "\<forall>line \<in> set (splitLines (pre @ REDACTED @ post)). keepLine line"
proof
  fix line
  assume l: "line \<in> set (splitLines (pre @ REDACTED @ post))"
  have "toLowerChar c \<noteq> CHR ''i'' \<and> toLowerChar c \<noteq> CHR ''y''" if "c \<in> set line" for c
  proof -
    from that splitLines_set [OF l] have "c \<in> set pre \<or> c \<in> set REDACTED \<or> c \<in> set post" by auto
    then show ?thesis
    proof (elim disjE)
      assume "c \<in> set REDACTED"
      then show ?thesis
        by (auto simp add: REDACTED_def toLowerChar_def isAsciiUpper_def isLatinUpper_def)
    next
      assume "c \<in> set pre"
      with pre have "\<not> isWordChar c" by (simp add: nonWord_def)
      then show ?thesis using toLowerChar_iy [of c] by blast
    next
      assume "c \<in> set post"
      with post have "\<not> isWordChar c" by (simp add: nonWord_def)
      then show ?thesis using toLowerChar_iy [of c] by blast
    qed
  qed
  then show "keepLine line" by (intro keepLine_no_iy) blast
qed


section \<open>Properties of the context sanitizer\<close>

lemma hasDigitRun_digit: "hasDigitRun (Suc n) s \<Longrightarrow> \<exists>c \<in> set s. isDigit c"
  by (induction s) auto

lemma redacted_no_digit: "\<forall>c \<in> set REDACTED. \<not> isDigit c"
  by (simp add: REDACTED_def isDigit_def)

lemma nonWord_no_digit: "nonWord s \<Longrightarrow> \<forall>c \<in> set s. \<not> isDigit c"
  by (auto simp add: nonWord_def dest: digit_word)

text \<open>
  A 16-digit run between two texts without word characters: the cleaned output is the
  input with the run replaced by the redaction marker.
\<close>

lemma isolated_run_redacted:
  assumes len: "length run = 16" and dig: "\<forall>c \<in> set run. isDigit c"
    and pre: "nonWord pre" and post: "nonWord post"
  shows "sanitizeContext (pre @ run @ post) = pre @ REDACTED @ post \<and>
         includesStr (sanitizeContext (pre @ run @ post)) REDACTED \<and>
         \<not> hasDigitRun 16 (sanitizeContext (pre @ run @ post))"
proof -
  let ?s = "pre @ REDACTED @ post"
  have "replaceEach SENSITIVE_CONTEXT_PATTERNS (pre @ run @ post) =
        replaceEach (tl SENSITIVE_CONTEXT_PATTERNS) ?s"
    using sanitize_stage1 [OF len dig pre post] by (simp add: SENSITIVE_CONTEXT_PATTERNS_def)
  also have "\<dots> = ?s"
    using later_patterns_clean(1) [OF pre post] by (rule replaceEach_no_match)
  finally have s1: "replaceEach SENSITIVE_CONTEXT_PATTERNS (pre @ run @ post) = ?s" .
  have s2: "filterInstructionContent ?s = ?s"
    using marker_lines_kept [OF pre post] by (rule filterInstructionContent_clean)
  have s3: "redactEach sensitivePatterns ?s = ?s"
    using later_patterns_clean(2) [OF pre post] by (rule redactEach_no_match)
  have eq: "sanitizeContext (pre @ run @ post) = ?s"
    by (simp add: sanitizeContext_def semanticRedactContext_def s1 s2 s3)
  have "\<forall>c \<in> set ?s. \<not> isDigit c"
    using nonWord_no_digit [OF pre] nonWord_no_digit [OF post] redacted_no_digit by auto
  then have "\<not> hasDigitRun 16 ?s"
    using hasDigitRun_digit [of 15 ?s] by auto
  with eq show ?thesis by (simp add: includesStr_append)
qed

subsection \<open>Digits in a row\<close>

lemma digitPrefix_Nil: "0 < n \<Longrightarrow> \<not> digitPrefix n []"
  by (cases n) simp_all


lemma hasDigitRun_Nil: "0 < n \<Longrightarrow> \<not> hasDigitRun n []"
  by (simp add: digitPrefix_Nil)














subsection \<open>A replacement creates no digits in a row\<close>











subsection \<open>The first pattern on a run between word boundaries\<close>








subsection \<open>A replacement leaves a marker\<close>










subsection \<open>A replacement creates no cue\<close>


lemma lower_bracket_all: "\<forall>c. toLowerChar c = CHR ''['' \<longrightarrow> c = CHR ''[''"
  by code_simp









lemma includesStr_Cons: "includesStr s u \<Longrightarrow> includesStr (c # s) u"
  by simp











subsection \<open>Cues in a text and in its lines\<close>










subsection \<open>The sanitizer on bounded runs\<close>








text \<open>On that context the output is the context with the run replaced.\<close>

lemma routeContext_cleaned:
  "sanitizeContext routeContext = ''Source 1 (ai.md):'' @ CHR 0x0A # ''card [REDACTED] ok''"
  by code_simp

text \<open>
  C8. A text in which no pattern of the first stage matches, no line contains one of the
  four cues, and no pattern of the second stage matches comes back unchanged. The empty
  text comes back empty, and its validation reports no issue.
\<close>

theorem C8_clean_input_unchanged:
  "((\<forall>p \<in> set SENSITIVE_CONTEXT_PATTERNS. \<not> test p text) \<and>
    (\<forall>line \<in> set (splitLines text). keepLine line) \<and>
    (\<forall>p \<in> set sensitivePatterns. \<not> test p text) \<longrightarrow> sanitizeContext text = text) \<and>
   sanitizeContext [] = [] \<and>
   validateContextSafety (sanitizeContext []) = \<lparr>safe = True, issues = []\<rparr>"
  by (simp add: sanitize_empty sanitize_empty_report)
     (simp add: sanitizeContext_def semanticRedactContext_def replaceEach_no_match
        filterInstructionContent_clean redactEach_no_match)

theorem C8_clean_input_unchanged_witness:
  "sanitizeContext ''hello world'' = ''hello world'' \<and> sanitizeContext [] = []"
proof -
  have a: "\<forall>p \<in> set SENSITIVE_CONTEXT_PATTERNS. \<not> test p ''hello world''" by code_simp
  have b: "\<forall>line \<in> set (splitLines ''hello world''). keepLine line" by code_simp
  have c: "\<forall>p \<in> set sensitivePatterns. \<not> test p ''hello world''" by code_simp
  from C8_clean_input_unchanged [of "''hello world''"] a b c show ?thesis by blast
qed

section \<open>Properties of the chat route\<close>

lemma space_not_word_all: "\<forall>c. isSpace c \<longrightarrow> \<not> isWordChar c"
  by code_simp

lemma trim_empty_nonWord: "trim s = [] \<Longrightarrow> nonWord s"
proof -
  assume "trim s = []"
  then have a: "\<forall>c \<in> set (dropWhile isSpace s). isSpace c"
    by (simp add: trim_def dropWhile_eq_Nil_conv)
  have "dropWhile isSpace s = []"
  proof (rule ccontr)
    assume n: "dropWhile isSpace s \<noteq> []"
    then have "\<not> isSpace (hd (dropWhile isSpace s))" by (rule hd_dropWhile)
    with a n show False by simp
  qed
  then have "\<forall>c \<in> set s. isSpace c" by (simp add: dropWhile_eq_Nil_conv)
  with space_not_word_all show ?thesis by (auto simp add: nonWord_def)
qed

lemma output_patterns_startsWord: "\<forall>p \<in> set OUTPUT_BLOCK_PATTERNS. startsWord (body p)"
  by code_simp

text \<open>A text that is blank after trimming matches no output pattern.\<close>

lemma blank_text_passes: "trim text = [] \<Longrightarrow> \<not> violatesOutputPolicy text"
proof -
  assume "trim text = []"
  then have nw: "nonWord text" by (rule trim_empty_nonWord)
  have "\<not> test p text" if "p \<in> set OUTPUT_BLOCK_PATTERNS" for p
  proof -
    from output_patterns_startsWord that have "startsWord (body p)" by blast
    then show ?thesis unfolding test_def using nw by (rule testFrom_nonWord)
  qed
  then have "filter (\<lambda>p. test p text) OUTPUT_BLOCK_PATTERNS = []"
    by (simp add: filter_empty_conv)
  then show ?thesis by (simp add: violatesOutputPolicy_def)
qed

lemma violatesOutputPolicy_one:
  "p \<in> set OUTPUT_BLOCK_PATTERNS \<Longrightarrow> test p text \<Longrightarrow> violatesOutputPolicy text"
  by (auto simp add: violatesOutputPolicy_def filter_empty_conv)

lemma violatesInputPolicy_one:
  "p \<in> set BLOCKED_PATTERNS \<Longrightarrow> test p query \<Longrightarrow> violatesInputPolicy query"
  by (auto simp add: violatesInputPolicy_def filter_empty_conv)

lemma card_pattern_matches: "test (OUTPUT_BLOCK_PATTERNS ! 0) cardText"
  by code_simp

lemma cardText_violates: "violatesOutputPolicy cardText"
  by (rule violatesOutputPolicy_one [OF _ card_pattern_matches]) (simp add: OUTPUT_BLOCK_PATTERNS_def)

lemma bank_pattern_matches: "test (BLOCKED_PATTERNS ! 0) bankQuestion"
  by code_simp

lemma trim_bankQuestion: "trim bankQuestion = bankQuestion"
  by (simp add: bankQuestion_def trim_def isSpace_def)

lemma bankQuestion_violates: "violatesInputPolicy (trim bankQuestion)"
  unfolding trim_bankQuestion
  by (rule violatesInputPolicy_one [OF _ bank_pattern_matches]) (simp add: BLOCKED_PATTERNS_def)

lemma finishStream_blocked:
  "violatesOutputPolicy text \<Longrightarrow>
   saved (finishStream t \<lparr>streamLabel = l, outcome = Inr text\<rparr> st) = saved st @ [blockedMessage (turnSession t)]"
  by (simp add: finishStream_def onFinish_def saveMessage_def blockedMessage_def)

lemma generate_primary_blocked:
  assumes v: "violatesOutputPolicy text"
    and r: "respond w (length (calls st)) (primaryCall cfg w t st) = Finishes text"
  shows "generate cfg w t st =
           (Streamed (primaryLabel cfg w st) (Inr text),
            st\<lparr>calls := calls st @ [primaryCall cfg w t st],
               saved := saved st @ [blockedMessage (turnSession t)]\<rparr>)"
proof -
  from v blank_text_passes have nb: "trim text \<noteq> []" by blast
  show ?thesis
    using r v nb
    by (simp add: generate_def createStream_def primaryCall_def [symmetric] finishStream_def
        onFinish_def saveMessage_def blockedMessage_def pipeDataStream_def)
qed

lemma cardWorld_respond: "respond cardWorld n c = Finishes cardText"
  by (simp add: cardWorld_def baseWorld_def)

lemma st0_simps: "saved st0 = []" "calls st0 = []" "rateLimitedUntil st0 = 0"
  by (simp_all add: st0_def)

lemma primaryLabel_st0: "primaryLabel defaultConfig w st0 = ''Primary (gemini-2.5-flash)''"
  by (simp add: primaryLabel_def primaryModelId_def st0_def PRIMARY_MODEL_def)

text \<open>
  C4, as stated, fails for the text returned to the caller: the answer with a card number
  in it is what the response streams, while the persisted assistant message is the
  warning.
\<close>

theorem C4_streamed_text_counterexample:
  "violatesOutputPolicy cardText \<and>
   fst (generate defaultConfig cardWorld turn0 st0) = Streamed ''Primary (gemini-2.5-flash)'' (Inr cardText) \<and>
   cardText \<noteq> BLOCKED_RESPONSE \<and>
   map msgContent (saved (snd (generate defaultConfig cardWorld turn0 st0))) = [BLOCKED_RESPONSE]"
  using cardText_violates
    generate_primary_blocked [OF cardText_violates cardWorld_respond, where st = st0
      and cfg = defaultConfig and t = turn0]
  by (simp add: primaryLabel_st0 blockedMessage_def st0_simps cardText_def BLOCKED_RESPONSE_def)

text \<open>
  C4, amended. When the finished text of a stream matches an output pattern, the message
  handed to the persistence collaborator is the fixed warning and never that text; the
  body piped to the caller still carries the text. For the primary stream of a request:
  one provider call, the warning persisted, the text streamed.
\<close>

theorem C4_blocked_output_persisted_not_streamed:
  "violatesOutputPolicy reply \<longrightarrow>
     saved (finishStream t \<lparr>streamLabel = l, outcome = Inr reply\<rparr> st) =
       saved st @ [blockedMessage (turnSession t)] \<and>
     pipeDataStream \<lparr>streamLabel = l, outcome = Inr reply\<rparr> = Streamed l (Inr reply) \<and>
     (respond w (length (calls st)) (primaryCall cfg w t st) = Finishes reply \<longrightarrow>
        generate cfg w t st =
          (Streamed (primaryLabel cfg w st) (Inr reply),
           st\<lparr>calls := calls st @ [primaryCall cfg w t st],
              saved := saved st @ [blockedMessage (turnSession t)]\<rparr>))"
  by (simp add: finishStream_blocked generate_primary_blocked pipeDataStream_def)

theorem C4_blocked_output_persisted_not_streamed_witness:
  "violatesOutputPolicy cardText \<and>
   respond cardWorld (length (calls st0)) (primaryCall defaultConfig cardWorld turn0 st0) = Finishes cardText \<and>
   generate defaultConfig cardWorld turn0 st0 =
     (Streamed (primaryLabel defaultConfig cardWorld st0) (Inr cardText),
      st0\<lparr>calls := calls st0 @ [primaryCall defaultConfig cardWorld turn0 st0],
          saved := saved st0 @ [blockedMessage (turnSession turn0)]\<rparr>)"
  using C4_blocked_output_persisted_not_streamed [where reply = cardText and t = turn0 and l = "[]"
      and st = st0 and w = cardWorld and cfg = defaultConfig]
    cardText_violates cardWorld_respond
  by simp

lemma calls_markRateLimited [simp]: "calls (markRateLimited cfg w e st) = calls st"
  by (simp add: markRateLimited_def)

lemma calls_onFinish [simp]: "calls (onFinish sessionId text st) = calls st"
  by (simp add: onFinish_def saveMessage_def)

lemma empty_error_not_rate_limit: "\<not> isRateLimitError (Error None ''Empty Gemini output'')"
  by code_simp

text \<open>
  What holds of an empty primary answer: with a key and a fallback stream that can be
  created, the fallback is called once and its stream is the response; without a key
  the request fails with status 500 and no fallback call.
\<close>

lemma empty_primary_fallback_once:
  assumes p: "respond w (length (calls st)) (primaryCall cfg w t st) = Finishes text"
    and b: "trim text = []"
    and k: "OPENAI_API_KEY cfg = Some key" "key \<noteq> []"
    and f: "respond w (Suc (length (calls st))) (fallbackCall cfg t) = Finishes answer"
  shows "fst (generate cfg w t st) = Streamed (fallbackLabel cfg) (Inr answer) \<and>
         calls (snd (generate cfg w t st)) = calls st @ [primaryCall cfg w t st, fallbackCall cfg t]"
  using p b k f
  by (simp add: generate_def createStream_def primaryCall_def [symmetric] finishStream_def
      pipeDataStream_def ensureOpenAiFallback_def fallbackCall_def [symmetric])

lemma empty_primary_without_fallback:
  assumes p: "respond w (length (calls st)) (primaryCall cfg w t st) = Finishes text"
    and b: "trim text = []"
    and k: "OPENAI_API_KEY cfg = None"
  shows "fst (generate cfg w t st) = Json 500 ''Chat request failed'' \<and>
         calls (snd (generate cfg w t st)) = calls st @ [primaryCall cfg w t st]"
  using p b k
  by (simp add: generate_def createStream_def primaryCall_def [symmetric] finishStream_def
      ensureOpenAiFallback_def caught_def pipeFallback_def requestFailed_def)

text \<open>
  The slip: the fallback for an empty answer is created inside the \<^verbatim>\<open>try\<close> whose
  \<^verbatim>\<open>catch\<close> creates the fallback, so a creation that throws is followed by a second one.
\<close>

lemma empty_primary_fallback_twice:
  assumes p: "respond w (length (calls st)) (primaryCall cfg w t st) = Finishes text"
    and b: "trim text = []"
    and k: "OPENAI_API_KEY cfg = Some key" "key \<noteq> []"
    and f1: "respond w (Suc (length (calls st))) (fallbackCall cfg t) = CreateThrows e"
    and f2: "respond w (Suc (Suc (length (calls st)))) (fallbackCall cfg t) = Finishes answer"
  shows "fst (generate cfg w t st) = Streamed (fallbackLabel cfg) (Inr answer) \<and>
         calls (snd (generate cfg w t st)) =
           calls st @ [primaryCall cfg w t st, fallbackCall cfg t, fallbackCall cfg t]"
  using p b k f1 f2
  by (simp add: generate_def createStream_def primaryCall_def [symmetric] finishStream_def
      pipeDataStream_def ensureOpenAiFallback_def fallbackCall_def [symmetric] caught_def
      pipeFallback_def Let_def)

text \<open>
  C5. With an empty primary answer, a configured key, and a fallback stream whose first
  creation throws, the fallback is created twice, not once.
\<close>

theorem C5_fallback_created_twice:
  "map callLabel (calls (snd (generate withKey emptyThenThrow turn0 st0))) =
     [''Primary (gemini-2.5-flash)'', ''Fallback (openai/gpt-oss-120b:free)'',
      ''Fallback (openai/gpt-oss-120b:free)''] \<and>
   fst (generate withKey emptyThenThrow turn0 st0) =
     Streamed ''Fallback (openai/gpt-oss-120b:free)'' (Inr answerText)"
proof -
  have p: "respond emptyThenThrow (length (calls st0)) (primaryCall withKey emptyThenThrow turn0 st0) = Finishes []"
    by (simp add: emptyThenThrow_def baseWorld_def st0_def)
  have b: "trim [] = []" by (simp add: trim_def)
  have k: "OPENAI_API_KEY withKey = Some ''sk-test''" "''sk-test'' \<noteq> []"
    by (simp_all add: withKey_def)
  have f1: "respond emptyThenThrow (Suc (length (calls st0))) (fallbackCall withKey turn0) =
      CreateThrows (Error None ''unsupported model version'')"
    by (simp add: emptyThenThrow_def baseWorld_def st0_def)
  have f2: "respond emptyThenThrow (Suc (Suc (length (calls st0)))) (fallbackCall withKey turn0) =
      Finishes answerText"
    by (simp add: emptyThenThrow_def baseWorld_def st0_def)
  from empty_primary_fallback_twice [OF p b k f1 f2] show ?thesis
    by (simp add: st0_def primaryCall_def fallbackCall_def mkCall_def primaryLabel_def primaryModelId_def
        fallbackLabel_def withKey_def defaultConfig_def emptyThenThrow_def baseWorld_def PRIMARY_MODEL_def)
qed

text \<open>
  C9, as stated, fails: a request with a blocked message and no session identifier is
  answered with status 400, not 403.
\<close>

theorem C9_missing_session_counterexample:
  "violatesInputPolicy (trim bankQuestion) \<and>
   chat defaultConfig baseWorld (chatRequest None bankQuestion) st0 =
     (Json 400 ''Missing sessionId or message'', st0)"
  using bankQuestion_violates
  by (simp add: chat_def chatRequest_def resolvedSessionId_def orElse_def truthy_def lastMessage_def)

text \<open>
  C9, amended. The payload checks come first. A request without a session identifier,
  without a message list, without a text part in its last message or with a blank text
  is answered with status 400 and \<^verbatim>\<open>Missing sessionId or message\<close>; one with all of
  these and a session identifier that is no valid ObjectId is answered with status 400
  and \<^verbatim>\<open>Invalid sessionId\<close>; both whatever the text says. A request that passes these
  checks and whose trimmed text matches a blocked pattern is answered with status 403
  and the fixed refusal. In all three cases the state is as before: nothing is
  persisted and no provider is called.
\<close>

theorem C9_blocked_input_refused:
  "(resolvedSessionId req = Some sessionId \<and> bodyMessages req = Some ms \<and> userMessage req = Some um \<and>
    trim um \<noteq> [] \<and> isValidObjectId w sessionId \<and> violatesInputPolicy (trim um)
      \<longrightarrow> chat cfg w req st = (Json 403 REFUSAL, st)) \<and>
   (resolvedSessionId req = None \<or> bodyMessages req = None \<or> userMessage req = None \<or>
    (userMessage req = Some um \<and> trim um = [])
      \<longrightarrow> chat cfg w req st = (Json 400 ''Missing sessionId or message'', st)) \<and>
   (resolvedSessionId req = Some sessionId \<and> bodyMessages req = Some ms \<and> userMessage req = Some um \<and>
    trim um \<noteq> [] \<and> \<not> isValidObjectId w sessionId
      \<longrightarrow> chat cfg w req st = (Json 400 ''Invalid sessionId'', st)) \<and>
   (userMessage req = Some um \<and> violatesInputPolicy (trim um)
      \<longrightarrow> snd (chat cfg w req st) = st \<and>
          fst (chat cfg w req st) \<in> {Json 403 REFUSAL, Json 400 ''Missing sessionId or message'',
                                     Json 400 ''Invalid sessionId''})"
  by (auto simp add: chat_def split: option.splits)

lemma chatRequest_fields:
  "resolvedSessionId (chatRequest (Some sid0) text) = Some sid0"
  "bodyMessages (chatRequest (Some sid0) text) =
     Some [\<lparr>parts = Some [\<lparr>partType = ''text'', partText = text\<rparr>], metadataSessionId = None\<rparr>]"
  "userMessage (chatRequest (Some sid0) text) = Some text"
  by (simp_all add: chatRequest_def resolvedSessionId_def userMessage_def lastMessage_def orElse_def
      truthy_def sid0_def)

lemma chatRequest_session:
  "resolvedSessionId (chatRequest None question) = None"
  "resolvedSessionId (chatRequest (Some ''session-1'') question) = Some ''session-1''"
  by (simp_all add: chatRequest_def resolvedSessionId_def lastMessage_def orElse_def truthy_def)

lemma chatRequest_payload:
  "bodyMessages (chatRequest sid question) =
     Some [\<lparr>parts = Some [\<lparr>partType = ''text'', partText = question\<rparr>], metadataSessionId = None\<rparr>]"
  "userMessage (chatRequest sid question) = Some question"
  by (simp_all add: chatRequest_def userMessage_def lastMessage_def)

lemma sid0_valid: "isValidObjectId baseWorld sid0"
  by (simp add: baseWorld_def hex24_def sid0_def isHexDigit_def isDigit_def)

lemma session1_invalid: "\<not> isValidObjectId baseWorld ''session-1''"
  by (simp add: baseWorld_def hex24_def)

theorem C9_blocked_input_refused_witness:
  "resolvedSessionId (chatRequest (Some sid0) bankQuestion) = Some sid0 \<and>
   userMessage (chatRequest (Some sid0) bankQuestion) = Some bankQuestion \<and>
   trim bankQuestion \<noteq> [] \<and> isValidObjectId baseWorld sid0 \<and> violatesInputPolicy (trim bankQuestion) \<and>
   chat defaultConfig baseWorld (chatRequest (Some sid0) bankQuestion) st0 = (Json 403 REFUSAL, st0) \<and>
   resolvedSessionId (chatRequest None bankQuestion) = None \<and>
   chat defaultConfig baseWorld (chatRequest None bankQuestion) st0 =
     (Json 400 ''Missing sessionId or message'', st0) \<and>
   chat defaultConfig baseWorld (chatRequest (Some ''session-1'') bankQuestion) st0 =
     (Json 400 ''Invalid sessionId'', st0)"
proof -
  let ?ms = "[\<lparr>parts = Some [\<lparr>partType = ''text'', partText = bankQuestion\<rparr>], metadataSessionId = None\<rparr>]"
  have t: "trim bankQuestion \<noteq> []" by (simp add: trim_bankQuestion) (simp add: bankQuestion_def)
  from C9_blocked_input_refused [where req = "chatRequest (Some sid0) bankQuestion" and sessionId = sid0
      and ms = ?ms and um = bankQuestion and w = baseWorld and cfg = defaultConfig and st = st0]
    chatRequest_fields [of bankQuestion] t sid0_valid bankQuestion_violates
  have refused: "chat defaultConfig baseWorld (chatRequest (Some sid0) bankQuestion) st0 = (Json 403 REFUSAL, st0)"
    by simp
  from C9_blocked_input_refused [where req = "chatRequest None bankQuestion" and sessionId = sid0
      and ms = ?ms and um = bankQuestion and w = baseWorld and cfg = defaultConfig and st = st0]
    chatRequest_session(1) [of bankQuestion]
  have missing: "chat defaultConfig baseWorld (chatRequest None bankQuestion) st0 =
      (Json 400 ''Missing sessionId or message'', st0)"
    by blast
  from C9_blocked_input_refused [where req = "chatRequest (Some ''session-1'') bankQuestion"
      and sessionId = "''session-1''" and ms = ?ms and um = bankQuestion and w = baseWorld
      and cfg = defaultConfig and st = st0]
    chatRequest_session(2) [of bankQuestion] chatRequest_payload [of "Some ''session-1''" bankQuestion]
    t session1_invalid
  have invalid: "chat defaultConfig baseWorld (chatRequest (Some ''session-1'') bankQuestion) st0 =
      (Json 400 ''Invalid sessionId'', st0)"
    by blast
  from refused missing invalid chatRequest_fields [of bankQuestion] chatRequest_session(1) [of bankQuestion]
    t sid0_valid bankQuestion_violates
  show ?thesis by blast
qed


lemma trim_Nil: "trim [] = []"
  by (simp add: trim_def)








section \<open>Properties of ingestion\<close>

lemma addAll_success: "addAll ds index = (None, index') \<Longrightarrow> index' = index @ ds"
proof (induction ds arbitrary: index)
  case Nil
  then show ?case by simp
next
  case (Cons a ds)
  from Cons.prems have "addAll ds (index @ [a]) = (None, index')" by (simp split: if_splits)
  then have "index' = (index @ [a]) @ ds" by (rule Cons.IH)
  then show ?case by simp
qed

lemma mapIdx_Nil_iff: "mapIdx f i xs = [] \<longleftrightarrow> xs = []"
  by (cases xs) simp_all

lemma mapIdx_all: "(\<And>x j. P (f x j)) \<Longrightarrow> \<forall>y \<in> set (mapIdx f i xs). P y"
  by (induction xs arbitrary: i) simp_all

lemma ingestText_success:
  assumes "ingestTextIntoChroma d fp text hash st = (None, st')"
  shows "\<exists>new. new \<noteq> [] \<and>
           (\<forall>r \<in> set new. filePath (recMetadata r) = Some fp \<and> fileHash (recMetadata r) = Some hash) \<and>
           collection st' = collection st @ new"
proof -
  let ?chunks = "splitText d text"
  from assms have ne: "?chunks \<noteq> []"
    by (auto simp add: ingestTextIntoChroma_def Let_def split: if_splits)
  from assms obtain embeddings where emb: "embedTexts d ?chunks = Inr embeddings"
    and len: "length embeddings = length ?chunks"
    and col: "collection st' = collection st @
        mapIdx (\<lambda>(chunk, embedding) index.
                  \<lparr>recId = chunkId fp index, recDocument = chunk,
                   recMetadata = \<lparr>filePath = Some fp, fileHash = Some hash, chunkIndex = Some index\<rparr>,
                   recEmbedding = embedding\<rparr>) 0 (zip ?chunks embeddings)"
    by (auto simp add: ingestTextIntoChroma_def Let_def split: if_splits prod.splits option.splits sum.splits)
  let ?new = "mapIdx (\<lambda>(chunk, embedding) index.
                  \<lparr>recId = chunkId fp index, recDocument = chunk,
                   recMetadata = \<lparr>filePath = Some fp, fileHash = Some hash, chunkIndex = Some index\<rparr>,
                   recEmbedding = embedding\<rparr>) 0 (zip ?chunks embeddings)"
  from ne len have "zip ?chunks embeddings \<noteq> []" by (cases ?chunks; cases embeddings) auto
  then have "?new \<noteq> []" by (simp add: mapIdx_Nil_iff)
  moreover have "\<forall>r \<in> set ?new. filePath (recMetadata r) = Some fp \<and> fileHash (recMetadata r) = Some hash"
    by (rule mapIdx_all) (simp add: split_def)
  ultimately show ?thesis using col by blast
qed

lemma ingestText_success_index:
  assumes "ingestTextIntoChroma d fp text hash st = (None, st')"
  shows "\<exists>doc. docId doc = chunkId fp 0 \<and> doc \<in> set (miniSearch st')"
proof -
  let ?docs = "mapIdx (\<lambda>chunk index. \<lparr>docId = chunkId fp index, docContent = chunk, docFilePath = fp\<rparr>) 0
                 (splitText d text)"
  from assms obtain c cs where ne: "splitText d text = c # cs"
    by (cases "splitText d text") (auto simp add: ingestTextIntoChroma_def Let_def split: if_splits)
  from assms obtain index' where a: "addAll ?docs (miniSearch st) = (None, index')"
    and m: "miniSearch st' = index'"
    by (auto simp add: ingestTextIntoChroma_def Let_def split: if_splits prod.splits option.splits sum.splits)
  from addAll_success [OF a] m have "miniSearch st' = miniSearch st @ ?docs" by simp
  then have "\<lparr>docId = chunkId fp 0, docContent = c, docFilePath = fp\<rparr> \<in> set (miniSearch st')"
    by (simp add: ne)
  then show ?thesis by (intro exI [of _ "\<lparr>docId = chunkId fp 0, docContent = c, docFilePath = fp\<rparr>"]) simp
qed

lemma getWhere_after_ingest:
  assumes "new \<noteq> []" "\<forall>r \<in> set new. filePath (recMetadata r) = Some fp \<and> fileHash (recMetadata r) = Some hash"
  shows "\<exists>r rs. getWhere fp (deleteWhere fp col @ new) = r # rs \<and> fileHash (recMetadata r) = Some hash"
proof -
  have "filter (hasFilePath fp) (deleteWhere fp col) = []"
    by (simp add: deleteWhere_def filter_empty_conv)
  moreover have "filter (hasFilePath fp) new = new"
    using assms(2) by (simp add: hasFilePath_def filter_id_conv)
  ultimately have "getWhere fp (deleteWhere fp col @ new) = new" by (simp add: getWhere_def)
  with assms show ?thesis by (cases new) auto
qed

text \<open>
  The part of C7 that holds: an ingest that succeeded, repeated on the stores it left,
  is skipped and leaves them as they are.
\<close>

lemma ingestContent_twice:
  assumes "ingestContent d fp processed st = (IngestJson 200 ''ingested'', st1)"
  shows "ingestContent d fp processed st1 = (IngestJson 200 ''skipped'', st1)"
proof -
  let ?hash = "hashContent d processed"
  from assms have lim: "withinLimits d processed"
    by (simp add: ingestContent_def split: if_splits)
  from assms lim have "ingestTextIntoChroma d fp processed ?hash
      (st\<lparr>collection := deleteWhere fp (collection st)\<rparr>) = (None, st1)"
    by (simp add: ingestContent_def Let_def split: if_splits prod.splits option.splits)
  from ingestText_success [OF this] obtain new where new: "new \<noteq> []"
      "\<forall>r \<in> set new. filePath (recMetadata r) = Some fp \<and> fileHash (recMetadata r) = Some ?hash"
    and col: "collection st1 = deleteWhere fp (collection st) @ new"
    by auto
  from getWhere_after_ingest [OF new, of "collection st"] col
  obtain r rs where "getWhere fp (collection st1) = r # rs" "fileHash (recMetadata r) = Some ?hash"
    by auto
  with lim show ?thesis by (simp add: ingestContent_def)
qed

lemma processedContent_rejects: "processedContent d req = Inl r \<Longrightarrow> \<exists>m. r = IngestJson 400 m"
  by (auto simp add: processedContent_def Let_def split: option.splits sum.splits if_splits)

lemma ingest_twice:
  assumes "ingest d req st = (IngestJson 200 ''ingested'', st1)"
  shows "ingest d req st1 = (IngestJson 200 ''skipped'', st1)"
proof (cases "processedContent d req")
  case (Inl r)
  with assms processedContent_rejects [OF Inl] show ?thesis by (auto simp add: ingest_def)
next
  case (Inr pc)
  obtain fp processed where pc: "pc = (fp, processed)" by (cases pc)
  with Inr assms have "ingestContent d fp processed st = (IngestJson 200 ''ingested'', st1)"
    by (simp add: ingest_def)
  then have "ingestContent d fp processed st1 = (IngestJson 200 ''skipped'', st1)"
    by (rule ingestContent_twice)
  with Inr pc show ?thesis by (simp add: ingest_def)
qed

text \<open>
  The part that fails: after a successful ingest of a file, new content for the same
  file (another hash, within the limits, not blank, split into at least one chunk) is
  not re-inserted. The file's records are deleted from the vector store, the lexical
  index still holds the old chunk 0 under the same id, adding the new chunk 0 throws,
  and the request ends with status 500.
\<close>

lemma ingestContent_changed_fails:
  assumes first: "ingestContent d fp old st = (IngestJson 200 ''ingested'', st1)"
    and changed: "hashContent d new \<noteq> hashContent d old"
    and ok: "withinLimits d new" "new \<noteq> []" "trim new \<noteq> []" "splitText d new \<noteq> []"
  shows "ingestContent d fp new st1 =
           (IngestJson 500 ''Ingest failed'', st1\<lparr>collection := deleteWhere fp (collection st1)\<rparr>)"
proof -
  let ?h1 = "hashContent d old" and ?h2 = "hashContent d new"
  from first have lim: "withinLimits d old"
    by (simp add: ingestContent_def split: if_splits)
  from first lim have t: "ingestTextIntoChroma d fp old ?h1
      (st\<lparr>collection := deleteWhere fp (collection st)\<rparr>) = (None, st1)"
    by (simp add: ingestContent_def Let_def split: if_splits prod.splits option.splits)
  from ingestText_success [OF t] obtain recs where recs: "recs \<noteq> []"
      "\<forall>r \<in> set recs. filePath (recMetadata r) = Some fp \<and> fileHash (recMetadata r) = Some ?h1"
    and col: "collection st1 = deleteWhere fp (collection st) @ recs"
    by auto
  from getWhere_after_ingest [OF recs, of "collection st"] col
  obtain r rs where g: "getWhere fp (collection st1) = r # rs" "fileHash (recMetadata r) = Some ?h1"
    by auto
  from ingestText_success_index [OF t] obtain doc where doc: "docId doc = chunkId fp 0"
      "doc \<in> set (miniSearch st1)" by auto
  from ok(4) obtain c cs where ne: "splitText d new = c # cs" by (cases "splitText d new") auto
  from doc have dup: "chunkId fp 0 \<in> docId ` set (miniSearch st1)" by force
  have "ingestTextIntoChroma d fp new ?h2 (st1\<lparr>collection := deleteWhere fp (collection st1)\<rparr>) =
        (Some (Error None (''MiniSearch: duplicate ID '' @ chunkId fp 0)),
         st1\<lparr>collection := deleteWhere fp (collection st1)\<rparr>)"
    using ok(2,3) dup by (simp add: ingestTextIntoChroma_def ne)
  then show ?thesis using ok(1) g changed by (simp add: ingestContent_def)
qed

lemmas ingest_eval = ingest_def processedContent_def ingestContent_def ingestRequestOf_def deps0_def
  noStores_def truthy_def withinLimits_def trim_def isSpace_def ESTIMATED_TOKENS_PER_CHUNK_def
  TOKEN_LIMIT_PER_MINUTE_def CHROMA_RECORD_QUOTA_def getWhere_def deleteWhere_def hasFilePath_def
  ingestTextIntoChroma_def chunkId_def firstVersion_def

text \<open>
  C7. Ingesting \<open>ai.md\<close> with one content and then with another: the first request
  ingests one chunk, and repeating it is skipped; the second content is not re-inserted
  in either store. The request fails with status 500, the vector store has lost the
  file, and the lexical index still holds the first content.
\<close>

theorem C7_changed_content_not_reinserted:
  "ingest deps0 (ingestRequestOf ''ai.md'' ''first version'') noStores = (IngestJson 200 ''ingested'', firstVersion) \<and>
   ingest deps0 (ingestRequestOf ''ai.md'' ''first version'') firstVersion = (IngestJson 200 ''skipped'', firstVersion) \<and>
   ingest deps0 (ingestRequestOf ''ai.md'' ''second version'') firstVersion =
     (IngestJson 500 ''Ingest failed'', firstVersion\<lparr>collection := []\<rparr>)"
  by (simp add: ingest_eval)

end
